theory Spec2Isabelle
  imports Complex_Main
begin

section \<open>Graph data model\<close>

text \<open>
  The passes of \<^verbatim>\<open>ilit/adaptor/tf_utils\<close> work on a TensorFlow \<^verbatim>\<open>GraphDef\<close>:
  an ordered list of \<^verbatim>\<open>NodeDef\<close> messages, each with a name, an operator
  kind, an ordered list of input references and a map from attribute names to
  \<^verbatim>\<open>AttrValue\<close>s.

  The strings of a graph are Python \<^verbatim>\<open>str\<close> values: sequences of Unicode code
  points. They are modelled as lists of natural numbers; \<open>str\<close> turns a string
  literal of the program into such a list.
\<close>

type_synonym ustring = "nat list"

definition str :: "string \<Rightarrow> ustring" where
  "str s = map of_char s"

text \<open>
  A tensor attribute is kept in decoded form: element type tag (the number of
  the TensorFlow \<^verbatim>\<open>DataType\<close>), shape and the elements in row-major order.
  What an element is (a float of some width with its infinities and NaN, an
  integer, ...) is left open: the element type is the type parameter \<open>'e\<close>,
  and a float attribute holds a value of the same type.
\<close>

record 'e ndarray =
  nd_dtype :: nat
  nd_shape :: "nat list"
  nd_data :: "'e list"

datatype 'e attr_value =
    AttrUnset
  | AttrTensor "'e ndarray"
  | AttrB bool
  | AttrF 'e
  | AttrType nat
  | AttrS ustring
  | AttrI int

record 'e node_def =
  name :: ustring
  op :: ustring
  input :: "ustring list"
  attr :: "(ustring \<times> 'e attr_value) list"

type_synonym 'e graph_def = "'e node_def list"

text \<open>The exceptions the modelled code can raise, by itself or out of a call
  of \<^verbatim>\<open>math\<close> or numpy.\<close>

datatype error =
    DuplicateNodeNames ustring
  | NoNodeNamed ustring
  | NotAConst ustring
  | IndexError
  | TensorDecodeError
  | MathDomainError
  | VectorizeEmpty
  | UFuncTypeError
  | TypeError
  | OverflowError
  | AssertionError

section \<open>The interpreter and numpy\<close>

text \<open>
  The element types of the five tensors of a match, and whether gamma enters
  the scale: what the result type of each numpy operation below depends on.
\<close>

record dtypes =
  weights_dtype :: nat
  mean_dtype :: nat
  var_dtype :: nat
  beta_dtype :: nat
  gamma_dtype :: nat
  with_gamma :: bool

text \<open>
  What the code takes from the Python interpreter and from numpy is a
  parameter of the model, so that nothing is fixed about it that the source
  does not fix:

  \<^item> \<open>unicode_decimal\<close>: the code points above ASCII that the pattern
    \<^verbatim>\<open>\d\<close> matches (the decimal digits of the interpreter's Unicode
    database);
  \<^item> \<open>float_zero\<close>: the float \<^verbatim>\<open>0.0\<close>;
  \<^item> the arithmetic on one element of an array, for each operator of lines
    243--283 in the place where it stands:
    \<open>add_epsilon\<close> for \<^verbatim>\<open>var_value + variance_epsilon_value\<close>,
    \<open>math_sqrt\<close> for \<^verbatim>\<open>math.sqrt\<close>,
    \<open>reciprocal\<close> for \<^verbatim>\<open>1.0 / ...\<close>,
    \<open>times_gamma\<close> for \<^verbatim>\<open>... * gamma_value\<close>,
    \<open>negative\<close> for \<^verbatim>\<open>-mean_value\<close>,
    \<open>times_scale\<close> for \<^verbatim>\<open>... * scale_value\<close>,
    \<open>plus_beta\<close> for \<^verbatim>\<open>... + beta_value\<close>,
    \<open>imul_scale\<close> for the in-place \<^verbatim>\<open>it[0] *= current_scale\<close> on an element
    of the copy of the weights, and
    \<open>cast_offset\<close> for the conversion of an offset to the element type of the
    mean in \<^verbatim>\<open>make_tensor_proto(offset_value, mean_value.dtype.type, ...)\<close>.

  Each operation yields an element or raises. numpy applies an operator to
  arrays of one shape element by element, and what it does with an element
  depends on the element types of the arrays; so each operation is given
  the element types of the match.
\<close>

record 'e runtime =
  unicode_decimal :: "nat \<Rightarrow> bool"
  float_zero :: 'e
  add_epsilon :: "dtypes \<Rightarrow> 'e \<Rightarrow> 'e \<Rightarrow> error + 'e"
  math_sqrt :: "dtypes \<Rightarrow> 'e \<Rightarrow> error + 'e"
  reciprocal :: "dtypes \<Rightarrow> 'e \<Rightarrow> error + 'e"
  times_gamma :: "dtypes \<Rightarrow> 'e \<Rightarrow> 'e \<Rightarrow> error + 'e"
  negative :: "dtypes \<Rightarrow> 'e \<Rightarrow> error + 'e"
  times_scale :: "dtypes \<Rightarrow> 'e \<Rightarrow> 'e \<Rightarrow> error + 'e"
  plus_beta :: "dtypes \<Rightarrow> 'e \<Rightarrow> 'e \<Rightarrow> error + 'e"
  imul_scale :: "dtypes \<Rightarrow> 'e \<Rightarrow> 'e \<Rightarrow> error + 'e"
  cast_offset :: "dtypes \<Rightarrow> 'e \<Rightarrow> error + 'e"

text \<open>An operation applied to the elements of an array in order; the first
  exception ends it.\<close>

fun map_err :: "('a \<Rightarrow> error + 'b) \<Rightarrow> 'a list \<Rightarrow> error + 'b list" where
  "map_err f [] = Inr []"
| "map_err f (x # xs) =
     (case f x of
        Inl e \<Rightarrow> Inl e
      | Inr y \<Rightarrow> (case map_err f xs of Inl e \<Rightarrow> Inl e | Inr ys \<Rightarrow> Inr (y # ys)))"

section \<open>Name resolution (fold\_batch\_norm.py, lines 53--78)\<close>

text \<open>The code points of \<^verbatim>\<open>^\<close>, of the colon and of the newline character.\<close>

definition cp_caret :: nat where
  "cp_caret = of_char (CHR ''^'')"

definition cp_colon :: nat where
  "cp_colon = of_char (CHR '':'')"

definition cp_newline :: nat where
  "cp_newline = of_char (CHR 0x0A)"

text \<open>
  The characters that \<^verbatim>\<open>\d\<close> matches in a pattern over \<^verbatim>\<open>str\<close>: the Unicode
  decimal digits. Among the ASCII characters these are \<^verbatim>\<open>0\<close> to \<^verbatim>\<open>9\<close>
  (code points 48 to 57).
\<close>

definition is_digit :: "'e runtime \<Rightarrow> nat \<Rightarrow> bool" where
  "is_digit R c = (48 \<le> c \<and> c \<le> 57 \<or> 128 \<le> c \<and> unicode_decimal R c)"

text \<open>
  \<^verbatim>\<open>re.search(r"(.*):\d+$", node_name)\<close>, returning group 1 of the match.
  In Python's \<^verbatim>\<open>re\<close> (no flags) the dot matches every character but a
  newline, \<^verbatim>\<open>$\<close> matches at the end of the string and also just before a
  newline that is the last character, and \<^verbatim>\<open>search\<close> returns the leftmost
  match. Hence a match exists exactly when the text, without one final newline,
  ends with a colon followed by a non-empty run of digits; the colon is the
  last one, and group 1 starts after the last newline before that colon.
\<close>

definition slot_suffix_search :: "'e runtime \<Rightarrow> ustring \<Rightarrow> ustring option" where
  "slot_suffix_search R s =
     (let body = (if s \<noteq> [] \<and> last s = cp_newline then butlast s else s);
          digits = takeWhile (\<lambda>c. c \<noteq> cp_colon) (rev body);
          front = rev (tl (dropWhile (\<lambda>c. c \<noteq> cp_colon) (rev body)))
      in if cp_colon \<in> set body \<and> digits \<noteq> [] \<and> list_all (is_digit R) digits
         then Some (rev (takeWhile (\<lambda>c. c \<noteq> cp_newline) (rev front)))
         else None)"

definition node_name_from_input :: "'e runtime \<Rightarrow> ustring \<Rightarrow> ustring" where
  "node_name_from_input R node_name =
     (let node_name1 = (case node_name of c # rest \<Rightarrow> if c = cp_caret then rest else node_name
                                         | [] \<Rightarrow> node_name)
      in case slot_suffix_search R node_name1 of
           Some g \<Rightarrow> g
         | None \<Rightarrow> node_name1)"

definition node_from_map ::
  "'e runtime \<Rightarrow> (ustring \<rightharpoonup> 'e node_def) \<Rightarrow> ustring \<Rightarrow> error + 'e node_def" where
  "node_from_map R node_map nm =
     (let stripped_name = node_name_from_input R nm
      in case node_map stripped_name of
           None \<Rightarrow> Inl (NoNodeNamed nm)
         | Some n \<Rightarrow> Inr n)"

text \<open>The decorations as the specification words them.\<close>

definition strip_control_marker :: "ustring \<Rightarrow> ustring" where
  "strip_control_marker s = (if s \<noteq> [] \<and> hd s = cp_caret then tl s else s)"

definition has_slot_suffix :: "'e runtime \<Rightarrow> ustring \<Rightarrow> bool" where
  "has_slot_suffix R s =
     (\<exists>b ds. s = b @ [cp_colon] @ ds \<and> ds \<noteq> [] \<and> list_all (is_digit R) ds)"

section \<open>Parsing captured output (graph\_converter.py, lines 567--579)\<close>

definition newline :: char where
  "newline = CHR 0x0A"

text \<open>\<^verbatim>\<open>str.strip()\<close>: the characters for which \<^verbatim>\<open>str.isspace\<close> holds,
  among the first 256 code points.\<close>

definition is_space :: "char \<Rightarrow> bool" where
  "is_space c = (c \<in> set [CHR 0x09, CHR 0x0A, CHR 0x0B, CHR 0x0C, CHR 0x0D,
                           CHR 0x1C, CHR 0x1D, CHR 0x1E, CHR 0x1F, CHR 0x20,
                           CHR 0x85, CHR 0xA0])"

definition py_strip :: "string \<Rightarrow> string" where
  "py_strip s = rev (dropWhile is_space (rev (dropWhile is_space s)))"

text \<open>The slice \<^verbatim>\<open>xs[::2]\<close>.\<close>

fun every_other :: "'a list \<Rightarrow> 'a list" where
  "every_other [] = []"
| "every_other [x] = [x]"
| "every_other (x # y # zs) = x # every_other zs"

definition semicolon_index :: "string \<Rightarrow> nat list" where
  "semicolon_index input_data =
     every_other (filter (\<lambda>i. input_data ! i = CHR '';'') [0..<length input_data])"

text \<open>The loop over \<^verbatim>\<open>enumerate(semicolon_index[:-1])\<close>: one record per pair
  of consecutive kept positions.\<close>

fun records_between :: "string \<Rightarrow> nat list \<Rightarrow> string list" where
  "records_between input_data (a # b # rest) =
     (py_strip (take (b - a) (drop a input_data)) @ [newline])
       # records_between input_data (b # rest)"
| "records_between input_data _ = []"

definition parse_output :: "string \<Rightarrow> string list \<Rightarrow> error + string list" where
  "parse_output input_data output_data =
     (if count_list input_data (CHR '';'') mod 2 \<noteq> 0 then Inl AssertionError
      else let idx = semicolon_index input_data
           in if idx = [] then Inl IndexError
              else Inr (output_data @ records_between input_data idx
                         @ [py_strip (drop (last idx) input_data) @ [newline]]))"

section \<open>Duplicate detection (fold\_batch\_norm.py, lines 128--134)\<close>

fun input_node_map_loop ::
  "'e node_def list \<Rightarrow> (ustring \<rightharpoonup> 'e node_def) \<Rightarrow> error + (ustring \<rightharpoonup> 'e node_def)" where
  "input_node_map_loop [] m = Inr m"
| "input_node_map_loop (n # ns) m =
     (if m (name n) = None then input_node_map_loop ns (m(name n \<mapsto> n))
      else Inl (DuplicateNodeNames (name n)))"

definition build_input_node_map ::
  "'e graph_def \<Rightarrow> error + (ustring \<rightharpoonup> 'e node_def)" where
  "build_input_node_map g = input_node_map_loop g Map.empty"

section \<open>Folding batch normalisation (fold\_batch\_norm.py, lines 80--303)\<close>

subsection \<open>Attribute and tensor access\<close>

text \<open>
  Reading \<^verbatim>\<open>node.attr[key]\<close> of a protobuf map yields the default (unset)
  value for an absent key; the scalar fields \<^verbatim>\<open>.b\<close> and \<^verbatim>\<open>.f\<close> of a value
  that holds something else read as \<^verbatim>\<open>False\<close> and \<^verbatim>\<open>0.0\<close>.
  The empty entry that such a read may leave behind in the map of the node read
  is not modelled. A node is read this way only after it has been found to be
  part of a valid match, or as a constant, whose absent value tensor makes
  \<^verbatim>\<open>MakeNdarray\<close> raise; so the entry could show only in the copy of a
  convolution that a second batch norm on the same convolution appends.
\<close>

definition attr_of :: "'e node_def \<Rightarrow> ustring \<Rightarrow> 'e attr_value" where
  "attr_of n k = (case map_of (attr n) k of None \<Rightarrow> AttrUnset | Some v \<Rightarrow> v)"

definition attr_b :: "'e attr_value \<Rightarrow> bool" where
  "attr_b v = (case v of AttrB b \<Rightarrow> b | _ \<Rightarrow> False)"

definition attr_f :: "'e runtime \<Rightarrow> 'e attr_value \<Rightarrow> 'e" where
  "attr_f R v = (case v of AttrF x \<Rightarrow> x | _ \<Rightarrow> float_zero R)"

text \<open>
  \<^verbatim>\<open>tensor_util.MakeNdarray\<close>: the decoded array, or an exception when the
  attribute holds no tensor or the elements do not fill the declared shape.
\<close>

definition MakeNdarray :: "'e attr_value \<Rightarrow> error + 'e ndarray" where
  "MakeNdarray v =
     (case v of
        AttrTensor t \<Rightarrow>
          if length (nd_data t) = prod_list (nd_shape t) then Inr t
          else Inl TensorDecodeError
      | _ \<Rightarrow> Inl TensorDecodeError)"

definition values_from_const :: "'e node_def \<Rightarrow> error + 'e ndarray" where
  "values_from_const n =
     (if op n \<noteq> str ''Const'' then Inl (NotAConst (name n))
      else MakeNdarray (attr_of n (str ''value'')))"

definition scale_after_normalization :: "'e node_def \<Rightarrow> bool" where
  "scale_after_normalization n =
     (if op n = str ''BatchNormWithGlobalNormalization''
      then attr_b (attr_of n (str ''scale_after_normalization''))
      else True)"

subsection \<open>The class tables\<close>

text \<open>The tables are read at the operator kind of a batch-norm node, which is
  one of their two keys.\<close>

definition INPUT_ORDER :: "ustring \<Rightarrow> string list" where
  "INPUT_ORDER k =
     (if k = str ''BatchNormWithGlobalNormalization''
      then [''conv_op'', ''mean_op'', ''var_op'', ''beta_op'', ''gamma_op'']
      else [''conv_op'', ''gamma_op'', ''beta_op'', ''mean_op'', ''var_op''])"

definition EPSILON_ATTR :: "ustring \<Rightarrow> ustring" where
  "EPSILON_ATTR k =
     (if k = str ''BatchNormWithGlobalNormalization''
      then str ''variance_epsilon'' else str ''epsilon'')"

text \<open>\<^verbatim>\<open>list.index\<close>, for an element that occurs in the list.\<close>

definition list_index :: "'a list \<Rightarrow> 'a \<Rightarrow> nat" where
  "list_index xs x = length (takeWhile (\<lambda>y. y \<noteq> x) xs)"

definition is_batch_norm :: "'e node_def \<Rightarrow> bool" where
  "is_batch_norm n =
     (op n = str ''BatchNormWithGlobalNormalization'' \<or> op n = str ''FusedBatchNorm'')"

subsection \<open>Matching one candidate (lines 143--232)\<close>

text \<open>
  One pass of the loop body over a batch-norm node ends in one of three ways:
  an exception leaves \<^verbatim>\<open>do_transform\<close>, a failed check logs a warning and
  \<^verbatim>\<open>continue\<close>s, or the checks pass and the body goes on with the values found.
\<close>

datatype 'e warning =
    NoConvInput ustring
  | NoConstWeights ustring "'e node_def"
  | NoConstParam string ustring "'e node_def"
  | IncorrectShape string "nat list" nat ustring

datatype ('e, 'a) res = Raise error | Continue "'e warning" | Value 'a

fun res_bind :: "('e, 'a) res \<Rightarrow> ('a \<Rightarrow> ('e, 'b) res) \<Rightarrow> ('e, 'b) res" where
  "res_bind (Raise e) f = Raise e"
| "res_bind (Continue w) f = Continue w"
| "res_bind (Value a) f = f a"

definition lift :: "error + 'a \<Rightarrow> ('e, 'a) res" where
  "lift r = (case r of Inl e \<Rightarrow> Raise e | Inr a \<Rightarrow> Value a)"

definition list_at :: "'a list \<Rightarrow> nat \<Rightarrow> error + 'a" where
  "list_at xs i = (if i < length xs then Inr (xs ! i) else Inl IndexError)"

text \<open>\<^verbatim>\<open>self.node_from_map(input_node_map, node.input[INPUT_ORDER[node.op].index(role)])\<close>\<close>

definition operand ::
  "'e runtime \<Rightarrow> (ustring \<rightharpoonup> 'e node_def) \<Rightarrow> 'e node_def \<Rightarrow> string \<Rightarrow> error + 'e node_def" where
  "operand R node_map n role =
     (case list_at (input n) (list_index (INPUT_ORDER (op n)) role) of
        Inl e \<Rightarrow> Inl e
      | Inr ref \<Rightarrow> node_from_map R node_map ref)"

text \<open>\<^verbatim>\<open>self.node_from_map(input_node_map, conv_op.input[1])\<close>\<close>

definition weights_operand ::
  "'e runtime \<Rightarrow> (ustring \<rightharpoonup> 'e node_def) \<Rightarrow> 'e node_def \<Rightarrow> error + 'e node_def" where
  "weights_operand R node_map cv =
     (case list_at (input cv) 1 of
        Inl e \<Rightarrow> Inl e
      | Inr ref \<Rightarrow> node_from_map R node_map ref)"

record 'e bn_match =
  conv_op :: "'e node_def"
  weights_op :: "'e node_def"
  weights :: "'e ndarray"
  channel_count :: nat
  mean_op :: "'e node_def"
  mean_value :: "'e ndarray"
  var_op :: "'e node_def"
  var_value :: "'e ndarray"
  beta_op :: "'e node_def"
  beta_value :: "'e ndarray"
  gamma_op :: "'e node_def"
  gamma_value :: "'e ndarray"

definition get_channel_count :: "'e node_def \<Rightarrow> 'e ndarray \<Rightarrow> error + nat" where
  "get_channel_count cv w =
     (if op cv = str ''Conv2D'' then list_at (nd_shape w) 3
      else case list_at (nd_shape w) 2 of
             Inl e \<Rightarrow> Inl e
           | Inr c2 \<Rightarrow> (case list_at (nd_shape w) 3 of
                          Inl e \<Rightarrow> Inl e
                        | Inr c3 \<Rightarrow> Inr (c2 * c3)))"

text \<open>The block repeated for the mean, variance, beta and gamma operands.\<close>

definition match_param ::
  "'e runtime \<Rightarrow> (ustring \<rightharpoonup> 'e node_def) \<Rightarrow> 'e node_def \<Rightarrow> string \<Rightarrow> nat
     \<Rightarrow> ('e, 'e node_def \<times> 'e ndarray) res" where
  "match_param R node_map n role cc =
     res_bind (lift (operand R node_map n role)) (\<lambda>p.
       if op p \<noteq> str ''Const'' then Continue (NoConstParam role (name n) p)
       else res_bind (lift (values_from_const p)) (\<lambda>v.
         if nd_shape v \<noteq> [cc] then Continue (IncorrectShape role (nd_shape v) cc (name n))
         else Value (p, v)))"

definition match_node ::
  "'e runtime \<Rightarrow> (ustring \<rightharpoonup> 'e node_def) \<Rightarrow> 'e node_def \<Rightarrow> ('e, 'e bn_match) res" where
  "match_node R node_map n =
     res_bind (lift (operand R node_map n ''conv_op'')) (\<lambda>cv.
       if op cv \<noteq> str ''Conv2D'' \<and> op cv \<noteq> str ''DepthwiseConv2dNative''
       then Continue (NoConvInput (name n))
       else res_bind (lift (weights_operand R node_map cv)) (\<lambda>wop.
         if op wop \<noteq> str ''Const'' then Continue (NoConstWeights (name cv) wop)
         else res_bind (lift (values_from_const wop)) (\<lambda>w.
           res_bind (lift (get_channel_count cv w)) (\<lambda>cc.
             res_bind (match_param R node_map n ''mean_op'' cc) (\<lambda>(mop, mv).
               res_bind (match_param R node_map n ''var_op'' cc) (\<lambda>(vop, vv).
                 res_bind (match_param R node_map n ''beta_op'' cc) (\<lambda>(bop, bv).
                   res_bind (match_param R node_map n ''gamma_op'' cc) (\<lambda>(gop, gv).
                     Value \<lparr>conv_op = cv, weights_op = wop, weights = w,
                            channel_count = cc,
                            mean_op = mop, mean_value = mv,
                            var_op = vop, var_value = vv,
                            beta_op = bop, beta_value = bv,
                            gamma_op = gop, gamma_value = gv\<rparr>))))))))"

subsection \<open>Folding one match (lines 234--292)\<close>

definition variance_epsilon_value :: "'e runtime \<Rightarrow> 'e node_def \<Rightarrow> 'e" where
  "variance_epsilon_value R n = attr_f R (attr_of n (EPSILON_ATTR (op n)))"

definition dtypes_of :: "'e node_def \<Rightarrow> 'e bn_match \<Rightarrow> dtypes" where
  "dtypes_of n m =
     \<lparr>weights_dtype = nd_dtype (weights m),
      mean_dtype = nd_dtype (mean_value m),
      var_dtype = nd_dtype (var_value m),
      beta_dtype = nd_dtype (beta_value m),
      gamma_dtype = nd_dtype (gamma_value m),
      with_gamma = scale_after_normalization n\<rparr>"

text \<open>
  \<^verbatim>\<open>scale_value\<close> (lines 243--249). \<^verbatim>\<open>np.vectorize(math.sqrt)\<close> refuses an
  empty array and otherwise calls \<^verbatim>\<open>math.sqrt\<close> on each element.
\<close>

definition scale_value :: "'e runtime \<Rightarrow> 'e node_def \<Rightarrow> 'e bn_match \<Rightarrow> error + 'e list" where
  "scale_value R n m =
     (let dts = dtypes_of n m
      in case map_err (\<lambda>v. add_epsilon R dts v (variance_epsilon_value R n))
                (nd_data (var_value m)) of
           Inl e \<Rightarrow> Inl e
         | Inr shifted \<Rightarrow>
             if shifted = [] then Inl VectorizeEmpty
             else (case map_err (math_sqrt R dts) shifted of
                     Inl e \<Rightarrow> Inl e
                   | Inr roots \<Rightarrow>
                       (case map_err (reciprocal R dts) roots of
                          Inl e \<Rightarrow> Inl e
                        | Inr recip \<Rightarrow>
                            if scale_after_normalization n
                            then map_err (\<lambda>(i, g). times_gamma R dts i g)
                                   (zip recip (nd_data (gamma_value m)))
                            else Inr recip)))"

text \<open>\<^verbatim>\<open>offset_value = (-mean_value * scale_value) + beta_value\<close> (line 250).\<close>

definition offset_value ::
  "'e runtime \<Rightarrow> 'e node_def \<Rightarrow> 'e bn_match \<Rightarrow> 'e list \<Rightarrow> error + 'e list" where
  "offset_value R n m scale =
     (let dts = dtypes_of n m
      in case map_err (negative R dts) (nd_data (mean_value m)) of
           Inl e \<Rightarrow> Inl e
         | Inr negated \<Rightarrow>
             (case map_err (\<lambda>(x, s). times_scale R dts x s) (zip negated scale) of
                Inl e \<Rightarrow> Inl e
              | Inr products \<Rightarrow>
                  map_err (\<lambda>(x, b). plus_beta R dts x b)
                    (zip products (nd_data (beta_value m)))))"

text \<open>The multi-index of the element at row-major position \<open>k\<close>
  (\<^verbatim>\<open>it.multi_index\<close>).\<close>

fun unravel :: "nat list \<Rightarrow> nat \<Rightarrow> nat list" where
  "unravel [] k = []"
| "unravel (d # ds) k = ((k div prod_list ds) mod d) # unravel ds (k mod prod_list ds)"

definition current_scale_index :: "'e node_def \<Rightarrow> 'e ndarray \<Rightarrow> nat \<Rightarrow> nat" where
  "current_scale_index cv w k =
     (let multi_index = unravel (nd_shape w) k
      in if op cv = str ''Conv2D'' then multi_index ! 3
         else multi_index ! 2 * (nd_shape w ! 3) + multi_index ! 3)"

text \<open>The loop over the copy of the weights (lines 251--267): each element, in
  row-major order, is multiplied in place by the scale of its channel.\<close>

definition scaled_weights ::
  "'e runtime \<Rightarrow> 'e node_def \<Rightarrow> 'e bn_match \<Rightarrow> 'e list \<Rightarrow> error + 'e list" where
  "scaled_weights R n m scale =
     map_err (\<lambda>k. imul_scale R (dtypes_of n m) (nd_data (weights m) ! k)
                     (scale ! current_scale_index (conv_op m) (weights m) k))
       [0..<length (nd_data (weights m))]"

definition scaled_weights_node :: "'e bn_match \<Rightarrow> 'e list \<Rightarrow> 'e node_def" where
  "scaled_weights_node m new_weights =
     \<lparr>name = name (weights_op m), op = str ''Const'', input = [],
      attr = [(str ''dtype'', attr_of (weights_op m) (str ''dtype'')),
              (str ''value'', AttrTensor \<lparr>nd_dtype = nd_dtype (weights m),
                                         nd_shape = nd_shape (weights m),
                                         nd_data = new_weights\<rparr>)]\<rparr>"

definition offset_node :: "'e bn_match \<Rightarrow> 'e list \<Rightarrow> 'e node_def" where
  "offset_node m offset =
     \<lparr>name = name (conv_op m) @ str ''_bn_offset'', op = str ''Const'', input = [],
      attr = [(str ''dtype'', attr_of (mean_op m) (str ''dtype'')),
              (str ''value'', AttrTensor \<lparr>nd_dtype = nd_dtype (mean_value m),
                                         nd_shape = [length offset],
                                         nd_data = offset\<rparr>)]\<rparr>"

definition bias_add_node :: "'e node_def \<Rightarrow> 'e bn_match \<Rightarrow> 'e node_def" where
  "bias_add_node n m =
     \<lparr>name = name n, op = str ''BiasAdd'',
      input = [name (conv_op m), name (conv_op m) @ str ''_bn_offset''],
      attr = [(str ''T'', attr_of (conv_op m) (str ''T'')),
              (str ''data_format'', attr_of (conv_op m) (str ''data_format''))]\<rparr>"

text \<open>
  The four nodes appended to \<^verbatim>\<open>new_ops\<close> for one match, in the order in which
  the code computes their values: the scale, the offset, the scaled weights,
  and the offset converted to the element type of the mean.
\<close>

definition fold_ops :: "'e runtime \<Rightarrow> 'e node_def \<Rightarrow> 'e bn_match \<Rightarrow> error + 'e node_def list" where
  "fold_ops R n m =
     (case scale_value R n m of
        Inl e \<Rightarrow> Inl e
      | Inr scale \<Rightarrow>
          (case offset_value R n m scale of
             Inl e \<Rightarrow> Inl e
           | Inr offset \<Rightarrow>
               (case scaled_weights R n m scale of
                  Inl e \<Rightarrow> Inl e
                | Inr new_weights \<Rightarrow>
                    (case map_err (cast_offset R (dtypes_of n m)) offset of
                       Inl e \<Rightarrow> Inl e
                     | Inr stored_offset \<Rightarrow>
                         Inr [scaled_weights_node m new_weights, conv_op m,
                              offset_node m stored_offset, bias_add_node n m]))))"

definition skipped_names :: "'e node_def \<Rightarrow> 'e bn_match \<Rightarrow> ustring set" where
  "skipped_names n m =
     {name n, name (weights_op m), name (mean_op m), name (var_op m),
      name (beta_op m), name (gamma_op m), name (conv_op m)}"

subsection \<open>The pass (lines 105--303)\<close>

record 'e scan_state =
  nodes_to_skip :: "ustring set"
  new_ops :: "'e node_def list"
  warnings :: "'e warning list"

fun scan_nodes ::
  "'e runtime \<Rightarrow> (ustring \<rightharpoonup> 'e node_def) \<Rightarrow> 'e node_def list \<Rightarrow> 'e scan_state
     \<Rightarrow> error + 'e scan_state" where
  "scan_nodes R node_map [] st = Inr st"
| "scan_nodes R node_map (n # ns) st =
     (if \<not> is_batch_norm n then scan_nodes R node_map ns st
      else case match_node R node_map n of
             Raise e \<Rightarrow> Inl e
           | Continue w \<Rightarrow> scan_nodes R node_map ns (st\<lparr>warnings := warnings st @ [w]\<rparr>)
           | Value m \<Rightarrow>
               (case fold_ops R n m of
                  Inl e \<Rightarrow> Inl e
                | Inr ops \<Rightarrow>
                    scan_nodes R node_map ns
                      (st\<lparr>nodes_to_skip := nodes_to_skip st \<union> skipped_names n m,
                          new_ops := new_ops st @ ops\<rparr>)))"

definition initial_scan :: "'e scan_state" where
  "initial_scan = \<lparr>nodes_to_skip = {}, new_ops = [], warnings = []\<rparr>"

definition result_graph :: "'e graph_def \<Rightarrow> 'e scan_state \<Rightarrow> 'e graph_def" where
  "result_graph g st = filter (\<lambda>n. name n \<notin> nodes_to_skip st) g @ new_ops st"

text \<open>\<^verbatim>\<open>do_transform\<close> returns the new graph; the warnings logged on the way are
  returned beside it.\<close>

definition do_transform ::
  "'e runtime \<Rightarrow> 'e graph_def \<Rightarrow> error + ('e graph_def \<times> 'e warning list)" where
  "do_transform R g =
     (case build_input_node_map g of
        Inl e \<Rightarrow> Inl e
      | Inr node_map \<Rightarrow>
          (case scan_nodes R node_map g initial_scan of
             Inl e \<Rightarrow> Inl e
           | Inr st \<Rightarrow> Inr (result_graph g st, warnings st)))"

section \<open>Capturing a stream (graph\_converter.py, lines 59--131)\<close>

text \<open>
  \<^verbatim>\<open>OutputGrabber\<close> redirects a stream into a pipe and reads the pipe back.
  The pipe is a byte queue; \<^verbatim>\<open>os.read(fd, n)\<close> takes up to \<open>n\<close> of the bytes
  that are waiting. \<^verbatim>\<open>readOutput\<close> is modelled over the chunks that its
  successive reads return; when there is no further chunk the read blocks (the
  write end stays open until \<^verbatim>\<open>readOutput\<close> has returned), so the loop does
  not return: \<open>None\<close>.
\<close>

definition escape_char :: char where
  "escape_char = CHR 0x08"

fun readOutput :: "string list \<Rightarrow> string \<Rightarrow> string option" where
  "readOutput [] capturedtext = None"
| "readOutput (char # rest) capturedtext =
     (if char = [] \<or> escape_char = last char then Some capturedtext
      else readOutput rest (capturedtext @ char))"

text \<open>The chunks that reads of at most \<open>n\<close> bytes return when all of \<open>buf\<close>
  is waiting in the pipe.\<close>

function pipe_reads :: "nat \<Rightarrow> string \<Rightarrow> string list" where
  "pipe_reads n [] = []"
| "pipe_reads n (c # cs) =
     (if n = 0 then [] else take n (c # cs) # pipe_reads n (drop n (c # cs)))"
  by pat_completeness auto
termination
  by (relation "measure (\<lambda>(n, buf). length buf)") auto

text \<open>
  \<^verbatim>\<open>start()\<close> followed by writes of \<open>written\<close> to the stream and
  \<^verbatim>\<open>stop()\<close>, for a grabber that is not threaded (the constructor's default):
  \<^verbatim>\<open>stop\<close> writes the escape character, flushes, and only then calls
  \<^verbatim>\<open>readOutput\<close>, so everything is waiting in the pipe (a text that does
  not fit the pipe would block the writer before that; the pipe's capacity is
  not modelled). The result is \<^verbatim>\<open>capturedtext\<close>.
\<close>

definition stop_unthreaded :: "string \<Rightarrow> string option" where
  "stop_unthreaded written = readOutput (pipe_reads 10240 (written @ [escape_char])) []"

section \<open>The converter (graph\_converter.py, lines 483--565 and 643--649)\<close>

text \<open>
  The converter holds a reference to a mutable \<^verbatim>\<open>GraphDef\<close> object in
  \<^verbatim>\<open>_tmp_graph_def\<close>. Objects live in a store, so that a change made in place
  is seen through every reference to the object.
\<close>

datatype exn =
    PyException string
  | PyBaseException string
  | ValueError exn

text \<open>\<^verbatim>\<open>str(e)\<close>; for \<^verbatim>\<open>ValueError(e)\<close> it is \<^verbatim>\<open>str(e)\<close> again.\<close>

fun exn_str :: "exn \<Rightarrow> string" where
  "exn_str (PyException s) = s"
| "exn_str (PyBaseException s) = s"
| "exn_str (ValueError e) = exn_str e"

text \<open>What \<^verbatim>\<open>except Exception\<close> catches.\<close>

fun is_Exception :: "exn \<Rightarrow> bool" where
  "is_Exception (PyBaseException s) = False"
| "is_Exception _ = True"

record 'e converter =
  store :: "nat \<Rightarrow> 'e graph_def option"
  next_object :: nat
  tmp_graph_def :: "nat option"
  int8_logged_graph :: string
  files :: "string \<Rightarrow> 'e graph_def option"
  debug :: bool
  enable_kl_op_names :: bool
  error_log :: "string list"

type_synonym 'e step = "'e converter \<Rightarrow> 'e converter \<times> exn option"

text \<open>
  The collaborators whose code is in other modules: the transformation of
  \<^verbatim>\<open>InsertLogging\<close> (from the selected ops and the message, the new content
  of the graph object it is given, or an exception), the other steps of
  \<^verbatim>\<open>quantize\<close>, and \<^verbatim>\<open>tf.import_graph_def\<close> into a fresh \<^verbatim>\<open>tf.Graph\<close>.
\<close>

record ('e, 'tg) collaborators =
  InsertLogging :: "string list \<Rightarrow> string \<Rightarrow> 'e graph_def \<Rightarrow> exn + 'e graph_def"
  quantize_graph :: "'e step"
  get_fp32_print_node_names :: "'e step"
  generate_fp32_print_data :: "'e step"
  generate_calibration_data :: "'e step"
  freeze_requantization_ranges :: "'e step"
  fuse_requantize_with_fused_quantized_conv :: "'e step"
  import_graph_def :: "'e graph_def option \<Rightarrow> exn + 'tg"

definition tmp_graph :: "'e converter \<Rightarrow> 'e graph_def option" where
  "tmp_graph c = (case tmp_graph_def c of None \<Rightarrow> None | Some a \<Rightarrow> store c a)"

text \<open>\<^verbatim>\<open>InsertLogging(self._tmp_graph_def, ...).do_transformation()\<close>: the object
  behind the reference is changed in place.\<close>

definition insert_logging_in_place ::
  "('e, 'tg) collaborators \<Rightarrow> string list \<Rightarrow> string \<Rightarrow> nat \<Rightarrow> 'e step" where
  "insert_logging_in_place E ops message a c =
     (case store c a of
        None \<Rightarrow> (c, Some (PyException ''no graph''))
      | Some g \<Rightarrow>
          (case InsertLogging E ops message g of
             Inl e \<Rightarrow> (c, Some e)
           | Inr g' \<Rightarrow> (c\<lparr>store := (store c)(a := Some g')\<rparr>, None)))"

definition write_graph :: "nat \<Rightarrow> string \<Rightarrow> 'e step" where
  "write_graph a path c =
     (case store c a of
        None \<Rightarrow> (c, Some (PyException ''no graph''))
      | Some g \<Rightarrow> (c\<lparr>files := (files c)(path := Some g)\<rparr>, None))"

text \<open>Sequencing: the next statement runs only if the one before returned.\<close>

definition and_then :: "'e step \<Rightarrow> 'e step \<Rightarrow> 'e step" where
  "and_then f g c = (case f c of (c', None) \<Rightarrow> g c' | (c', Some e) \<Rightarrow> (c', Some e))"

definition insert_logging :: "('e, 'tg) collaborators \<Rightarrow> 'e step" where
  "insert_logging E c =
     (case tmp_graph_def c of
        None \<Rightarrow> (c, Some (PyException ''CopyFrom(None)''))
      | Some a \<Rightarrow>
          (case store c a of
             None \<Rightarrow> (c, Some (PyException ''no graph''))
           | Some g \<Rightarrow>
               (let int8_dynamic_range_graph_def = next_object c;
                    c1 = c\<lparr>store := (store c)(int8_dynamic_range_graph_def := Some g),
                           next_object := Suc (next_object c)\<rparr>
                in and_then
                     (insert_logging_in_place E
                        [''RequantizationRange'', ''RequantizationRangePerChannel'']
                        ''__requant_min_max:'' a)
                     (and_then (insert_logging_in_place E [''Min''] ''__min:'' a)
                        (and_then (insert_logging_in_place E [''Max''] ''__max:'' a)
                           (and_then (write_graph a (int8_logged_graph c))
                              (\<lambda>c'. (c'\<lparr>store := (store c')
                                              (a := store c' int8_dynamic_range_graph_def)\<rparr>,
                                     None)))))
                     c1)))"

definition post_clean :: "'e converter \<Rightarrow> 'e converter" where
  "post_clean c =
     (if files c (int8_logged_graph c) \<noteq> None
      then c\<lparr>files := (files c)(int8_logged_graph c := None)\<rparr>
      else c)"

text \<open>The body of the \<^verbatim>\<open>try\<close> block of \<^verbatim>\<open>quantize\<close>.\<close>

definition quantize_try :: "('e, 'tg) collaborators \<Rightarrow> 'e step" where
  "quantize_try E =
     and_then (quantize_graph E)
       (and_then (\<lambda>c. if enable_kl_op_names c
                       then and_then (get_fp32_print_node_names E)
                              (generate_fp32_print_data E) c
                       else (c, None))
          (and_then (insert_logging E)
             (and_then (generate_calibration_data E)
                (and_then (freeze_requantization_ranges E)
                   (fuse_requantize_with_fused_quantized_conv E)))))"

text \<open>
  The \<^verbatim>\<open>except Exception as e\<close> clause: log, then raise
  \<^verbatim>\<open>ValueError(e)\<close>. An exception it does not catch stays pending.
\<close>

definition quantize_except ::
  "'e converter \<times> exn option \<Rightarrow> 'e converter \<times> exn option" where
  "quantize_except r =
     (case r of
        (c, None) \<Rightarrow> (c, None)
      | (c, Some e) \<Rightarrow>
          if is_Exception e
          then (c\<lparr>error_log := error_log c @ [''Failed to quantize graph due to: '' @ exn_str e]\<rparr>,
                Some (ValueError e))
          else (c, Some e))"

text \<open>
  The \<^verbatim>\<open>finally\<close> clause runs with the exception of the clauses before it
  pending. It ends in \<^verbatim>\<open>return graph\<close>: in Python a \<^verbatim>\<open>return\<close> inside
  \<^verbatim>\<open>finally\<close> discards the pending exception. An exception raised inside
  the clause itself replaces it.
\<close>

definition quantize_finally ::
  "('e, 'tg) collaborators \<Rightarrow> 'e converter \<times> exn option \<Rightarrow> 'e converter \<times> (exn + 'tg)" where
  "quantize_finally E r =
     (case r of
        (c, pending) \<Rightarrow>
          (let c' = (if \<not> debug c then post_clean c else c)
           in case import_graph_def E (tmp_graph c') of
                Inl e \<Rightarrow> (c', Inl e)
              | Inr graph \<Rightarrow> (c', Inr graph)))"

definition quantize ::
  "('e, 'tg) collaborators \<Rightarrow> 'e converter \<Rightarrow> 'e converter \<times> (exn + 'tg)" where
  "quantize E c = quantize_finally E (quantize_except (quantize_try E c))"

text \<open>
  An example run: every collaborator succeeds except the calibration run, whose
  inference raises; \<^verbatim>\<open>InsertLogging\<close> appends one print node.
\<close>

definition print_node :: "string \<Rightarrow> 'e node_def" where
  "print_node message =
     \<lparr>name = str (message @ ''__print__''), op = str ''Print'', input = [], attr = []\<rparr>"

definition failing_calibration :: "('e, 'e graph_def option) collaborators" where
  "failing_calibration =
     \<lparr>InsertLogging = (\<lambda>ops message g. Inr (g @ [print_node message])),
      quantize_graph = (\<lambda>c. (c, None)),
      get_fp32_print_node_names = (\<lambda>c. (c, None)),
      generate_fp32_print_data = (\<lambda>c. (c, None)),
      generate_calibration_data = (\<lambda>c. (c, Some (PyException ''inference failed''))),
      freeze_requantization_ranges = (\<lambda>c. (c, None)),
      fuse_requantize_with_fused_quantized_conv = (\<lambda>c. (c, None)),
      import_graph_def = (\<lambda>g. case g of None \<Rightarrow> Inl (PyException ''no graph'') | Some x \<Rightarrow> Inr (Some x))\<rparr>"

definition example_converter :: "'e converter" where
  "example_converter =
     \<lparr>store = (\<lambda>a. if a = 0 then Some [\<lparr>name = str ''x'', op = str ''Placeholder'', input = [], attr = []\<rparr>]
                     else None),
      next_object = 1,
      tmp_graph_def = Some 0,
      int8_logged_graph = ''int8_logged_graph.pb'',
      files = (\<lambda>p. None),
      debug = False,
      enable_kl_op_names = False,
      error_log = []\<rparr>"

section \<open>The specification's words for the batch-norm pattern\<close>

text \<open>The node map of a graph whose names are distinct.\<close>

definition node_map_of :: "'e graph_def \<Rightarrow> (ustring \<rightharpoonup> 'e node_def)" where
  "node_map_of g = map_of (map (\<lambda>n. (name n, n)) g)"

definition param_roles :: "string list" where
  "param_roles = [''mean_op'', ''var_op'', ''beta_op'', ''gamma_op'']"

definition is_convolution :: "'e node_def \<Rightarrow> bool" where
  "is_convolution cv = (op cv = str ''Conv2D'' \<or> op cv = str ''DepthwiseConv2dNative'')"

text \<open>
  A valid convolution-to-batch-norm pattern at node \<open>n\<close>: the preceding op is
  a (depthwise) convolution whose weights are a constant, and the four
  normalisation parameters are constants of shape \<open>[channel count]\<close>.
\<close>

definition valid_pattern ::
  "'e runtime \<Rightarrow> (ustring \<rightharpoonup> 'e node_def) \<Rightarrow> 'e node_def \<Rightarrow> bool" where
  "valid_pattern R node_map n =
     (\<exists>cv wop w cc.
        operand R node_map n ''conv_op'' = Inr cv \<and> is_convolution cv
        \<and> weights_operand R node_map cv = Inr wop \<and> op wop = str ''Const''
        \<and> values_from_const wop = Inr w \<and> get_channel_count cv w = Inr cc
        \<and> list_all (\<lambda>role. \<exists>p v. operand R node_map n role = Inr p \<and> op p = str ''Const''
                              \<and> values_from_const p = Inr v \<and> nd_shape v = [cc]) param_roles)"

text \<open>
  The candidate \<open>n\<close> reaches a failing validation check: going through the
  checks in their order, every lookup before the failing check finds its node
  and decodes its constant, and then the preceding op is not a (depthwise)
  convolution, or the weights are not a constant, or a parameter is not a
  constant, or a parameter's shape differs from \<open>[channel count]\<close>.
\<close>

fun param_failure ::
  "'e runtime \<Rightarrow> (ustring \<rightharpoonup> 'e node_def) \<Rightarrow> 'e node_def \<Rightarrow> nat \<Rightarrow> string list \<Rightarrow> bool" where
  "param_failure R node_map n cc [] = False"
| "param_failure R node_map n cc (role # roles) =
     (case operand R node_map n role of
        Inl e \<Rightarrow> False
      | Inr p \<Rightarrow>
          op p \<noteq> str ''Const''
          \<or> (case values_from_const p of
                Inl e \<Rightarrow> False
              | Inr v \<Rightarrow> nd_shape v \<noteq> [cc] \<or> param_failure R node_map n cc roles))"

definition validation_failure ::
  "'e runtime \<Rightarrow> (ustring \<rightharpoonup> 'e node_def) \<Rightarrow> 'e node_def \<Rightarrow> bool" where
  "validation_failure R node_map n =
     (case operand R node_map n ''conv_op'' of
        Inl e \<Rightarrow> False
      | Inr cv \<Rightarrow>
          \<not> is_convolution cv
          \<or> (case weights_operand R node_map cv of
                Inl e \<Rightarrow> False
              | Inr wop \<Rightarrow>
                  op wop \<noteq> str ''Const''
                  \<or> (case values_from_const wop of
                        Inl e \<Rightarrow> False
                      | Inr w \<Rightarrow>
                          (case get_channel_count cv w of
                             Inl e \<Rightarrow> False
                           | Inr cc \<Rightarrow> param_failure R node_map n cc param_roles))))"


section \<open>An example runtime\<close>

text \<open>
  To run the model on example graphs: elements that are real numbers, the two
  infinities or NaN, with the arithmetic of IEEE floats on them but without
  rounding and without a sign on zero.
\<close>

datatype fp = Finite real | PosInf | NegInf | NaN

fun fp_uminus :: "fp \<Rightarrow> fp" where
  "fp_uminus (Finite x) = Finite (- x)"
| "fp_uminus PosInf = NegInf"
| "fp_uminus NegInf = PosInf"
| "fp_uminus NaN = NaN"

fun fp_plus :: "fp \<Rightarrow> fp \<Rightarrow> fp" where
  "fp_plus (Finite x) (Finite y) = Finite (x + y)"
| "fp_plus NaN y = NaN"
| "fp_plus x NaN = NaN"
| "fp_plus PosInf NegInf = NaN"
| "fp_plus NegInf PosInf = NaN"
| "fp_plus PosInf y = PosInf"
| "fp_plus NegInf y = NegInf"
| "fp_plus x PosInf = PosInf"
| "fp_plus x NegInf = NegInf"

text \<open>The product of an infinity of the sign of \<open>s\<close> with the real \<open>x\<close>.\<close>

definition inf_times :: "bool \<Rightarrow> real \<Rightarrow> fp" where
  "inf_times positive x =
     (if x = 0 then NaN else if (0 < x) = positive then PosInf else NegInf)"

fun fp_times :: "fp \<Rightarrow> fp \<Rightarrow> fp" where
  "fp_times (Finite x) (Finite y) = Finite (x * y)"
| "fp_times NaN y = NaN"
| "fp_times x NaN = NaN"
| "fp_times PosInf (Finite y) = inf_times True y"
| "fp_times NegInf (Finite y) = inf_times False y"
| "fp_times (Finite x) PosInf = inf_times True x"
| "fp_times (Finite x) NegInf = inf_times False x"
| "fp_times PosInf PosInf = PosInf"
| "fp_times NegInf NegInf = PosInf"
| "fp_times PosInf NegInf = NegInf"
| "fp_times NegInf PosInf = NegInf"

fun fp_reciprocal :: "fp \<Rightarrow> fp" where
  "fp_reciprocal (Finite x) = (if x = 0 then PosInf else Finite (1 / x))"
| "fp_reciprocal PosInf = Finite 0"
| "fp_reciprocal NegInf = Finite 0"
| "fp_reciprocal NaN = NaN"

fun fp_sqrt :: "fp \<Rightarrow> error + fp" where
  "fp_sqrt (Finite x) = (if x < 0 then Inl MathDomainError else Inr (Finite (sqrt x)))"
| "fp_sqrt PosInf = Inr PosInf"
| "fp_sqrt NegInf = Inl MathDomainError"
| "fp_sqrt NaN = Inr NaN"

text \<open>The element types whose arrays numpy does not multiply in place by a
  float: the integer types and \<^verbatim>\<open>bool\<close> (\<^verbatim>\<open>DT_INT32\<close> is 3, \<^verbatim>\<open>DT_UINT8\<close> 4,
  \<^verbatim>\<open>DT_INT16\<close> 5, \<^verbatim>\<open>DT_INT8\<close> 6, \<^verbatim>\<open>DT_INT64\<close> 9, \<^verbatim>\<open>DT_BOOL\<close> 10,
  \<^verbatim>\<open>DT_UINT16\<close> 17, \<^verbatim>\<open>DT_UINT32\<close> 22, \<^verbatim>\<open>DT_UINT64\<close> 23).\<close>

definition integer_dtype :: "nat \<Rightarrow> bool" where
  "integer_dtype d = (d \<in> set [3, 4, 5, 6, 9, 10, 17, 22, 23])"

text \<open>
  The example runtime: of the digits above ASCII it knows the Arabic-Indic
  ones (U+0660 to U+0669); its arithmetic is the one above; the in-place
  product raises for weights of an integer type, as numpy's does; the offset
  is stored as computed.
\<close>

definition example_runtime :: "fp runtime" where
  "example_runtime =
     \<lparr>unicode_decimal = (\<lambda>c. 0x660 \<le> c \<and> c \<le> 0x669),
      float_zero = Finite 0,
      add_epsilon = (\<lambda>dts x e. Inr (fp_plus x e)),
      math_sqrt = (\<lambda>dts x. fp_sqrt x),
      reciprocal = (\<lambda>dts x. Inr (fp_reciprocal x)),
      times_gamma = (\<lambda>dts x g. Inr (fp_times x g)),
      negative = (\<lambda>dts x. Inr (fp_uminus x)),
      times_scale = (\<lambda>dts x s. Inr (fp_times x s)),
      plus_beta = (\<lambda>dts x b. Inr (fp_plus x b)),
      imul_scale = (\<lambda>dts w s. if integer_dtype (weights_dtype dts) then Inl UFuncTypeError
                                else Inr (fp_times w s)),
      cast_offset = (\<lambda>dts x. Inr x)\<rparr>"

section \<open>Example graphs\<close>

text \<open>A constant of element type \<^verbatim>\<open>DT_FLOAT\<close>.\<close>

definition const_node :: "string \<Rightarrow> nat list \<Rightarrow> fp list \<Rightarrow> fp node_def" where
  "const_node nm shape vals =
     \<lparr>name = str nm, op = str ''Const'', input = [],
      attr = [(str ''dtype'', AttrType 1),
              (str ''value'', AttrTensor \<lparr>nd_dtype = 1, nd_shape = shape, nd_data = vals\<rparr>)]\<rparr>"

definition example_input :: "fp node_def" where
  "example_input = \<lparr>name = str ''x'', op = str ''Placeholder'', input = [], attr = []\<rparr>"

definition example_conv :: "fp node_def" where
  "example_conv =
     \<lparr>name = str ''conv'', op = str ''Conv2D'', input = [str ''x'', str ''w:0''],
      attr = [(str ''T'', AttrType 1), (str ''data_format'', AttrS (str ''NHWC''))]\<rparr>"

definition example_bn :: "fp node_def" where
  "example_bn =
     \<lparr>name = str ''bn'', op = str ''FusedBatchNorm'',
      input = [str ''conv'', str ''gamma'', str ''beta'', str ''mean'', str ''var''],
      attr = [(str ''epsilon'', AttrF (Finite 1))]\<rparr>"

definition example_relu :: "fp node_def" where
  "example_relu = \<lparr>name = str ''y'', op = str ''Relu'', input = [str ''bn''], attr = []\<rparr>"

text \<open>A convolution with two output channels followed by a batch norm whose
  mean has three elements.\<close>

definition example_graph_bad_mean :: "fp graph_def" where
  "example_graph_bad_mean =
     [example_input,
      const_node ''w'' [1, 1, 1, 2] [Finite 1, Finite 2],
      example_conv,
      const_node ''gamma'' [2] [Finite 2, Finite 4],
      const_node ''beta'' [2] [Finite 1, Finite 1],
      const_node ''mean'' [3] [Finite 3, Finite 5, Finite 7],
      const_node ''var'' [2] [Finite 3, Finite 8],
      example_bn,
      example_relu]"

text \<open>A batch norm whose first input names no node of the graph.\<close>

definition example_graph_dangling :: "fp graph_def" where
  "example_graph_dangling =
     [\<lparr>name = str ''bn'', op = str ''FusedBatchNorm'',
       input = [str ''conv'', str ''gamma'', str ''beta'', str ''mean'', str ''var''],
       attr = [(str ''epsilon'', AttrF (Finite 1))]\<rparr>]"

text \<open>A batch norm whose gamma is a placeholder and whose variance names no
  node of the graph.\<close>

definition example_gamma_placeholder :: "fp node_def" where
  "example_gamma_placeholder =
     \<lparr>name = str ''gamma'', op = str ''Placeholder'', input = [], attr = []\<rparr>"

definition example_graph_no_var :: "fp graph_def" where
  "example_graph_no_var =
     [example_input,
      const_node ''w'' [1, 1, 1, 2] [Finite 1, Finite 2],
      example_conv,
      example_gamma_placeholder,
      const_node ''beta'' [2] [Finite 1, Finite 1],
      const_node ''mean'' [2] [Finite 3, Finite 5],
      example_bn,
      example_relu]"

text \<open>
  A graph that folds. The variance is \<open>[3, -1]\<close> and epsilon is 1, so the
  second channel divides by zero. Below it, the pattern found in the graph and
  the graph expected after folding.
\<close>

definition example_graph_foldable :: "fp graph_def" where
  "example_graph_foldable =
     [example_input,
      const_node ''w'' [1, 1, 1, 2] [Finite 1, Finite 2],
      example_conv,
      const_node ''gamma'' [2] [Finite 2, Finite 4],
      const_node ''beta'' [2] [Finite 1, Finite 1],
      const_node ''mean'' [2] [Finite 3, Finite 5],
      const_node ''var'' [2] [Finite 3, Finite (- 1)],
      example_bn,
      example_relu]"

definition example_match :: "fp bn_match" where
  "example_match =
     \<lparr>conv_op = example_conv,
      weights_op = const_node ''w'' [1, 1, 1, 2] [Finite 1, Finite 2],
      weights = \<lparr>nd_dtype = 1, nd_shape = [1, 1, 1, 2], nd_data = [Finite 1, Finite 2]\<rparr>,
      channel_count = 2,
      mean_op = const_node ''mean'' [2] [Finite 3, Finite 5],
      mean_value = \<lparr>nd_dtype = 1, nd_shape = [2], nd_data = [Finite 3, Finite 5]\<rparr>,
      var_op = const_node ''var'' [2] [Finite 3, Finite (- 1)],
      var_value = \<lparr>nd_dtype = 1, nd_shape = [2], nd_data = [Finite 3, Finite (- 1)]\<rparr>,
      beta_op = const_node ''beta'' [2] [Finite 1, Finite 1],
      beta_value = \<lparr>nd_dtype = 1, nd_shape = [2], nd_data = [Finite 1, Finite 1]\<rparr>,
      gamma_op = const_node ''gamma'' [2] [Finite 2, Finite 4],
      gamma_value = \<lparr>nd_dtype = 1, nd_shape = [2], nd_data = [Finite 2, Finite 4]\<rparr>\<rparr>"

definition example_bias_add :: "fp node_def" where
  "example_bias_add =
     \<lparr>name = str ''bn'', op = str ''BiasAdd'', input = [str ''conv'', str ''conv_bn_offset''],
      attr = [(str ''T'', AttrType 1), (str ''data_format'', AttrS (str ''NHWC''))]\<rparr>"



text \<open>
  The same constants under a \<^verbatim>\<open>BatchNormWithGlobalNormalization\<close> node, which
  lists its inputs in another order, with \<^verbatim>\<open>scale_after_normalization\<close> false.
\<close>

definition example_bn_global :: "fp node_def" where
  "example_bn_global =
     \<lparr>name = str ''bn'', op = str ''BatchNormWithGlobalNormalization'',
      input = [str ''conv'', str ''mean'', str ''var'', str ''beta'', str ''gamma''],
      attr = [(str ''variance_epsilon'', AttrF (Finite 1)),
              (str ''scale_after_normalization'', AttrB False)]\<rparr>"

definition example_graph_global :: "fp graph_def" where
  "example_graph_global =
     [example_input,
      const_node ''w'' [1, 1, 1, 2] [Finite 1, Finite 2],
      example_conv,
      const_node ''gamma'' [2] [Finite 2, Finite 4],
      const_node ''beta'' [2] [Finite 1, Finite 1],
      const_node ''mean'' [2] [Finite 3, Finite 5],
      const_node ''var'' [2] [Finite 3, Finite (- 1)],
      example_bn_global,
      example_relu]"

definition example_new_ops_global :: "fp node_def list" where
  "example_new_ops_global =
     [const_node ''w'' [1, 1, 1, 2] [Finite (1 / 2), PosInf],
      example_conv,
      const_node ''conv_bn_offset'' [2] [Finite (- (1 / 2)), NegInf],
      example_bias_add]"

text \<open>The foldable graph with weights of element type \<^verbatim>\<open>DT_INT32\<close>.\<close>

definition example_int_weights :: "fp node_def" where
  "example_int_weights =
     \<lparr>name = str ''w'', op = str ''Const'', input = [],
      attr = [(str ''dtype'', AttrType 3),
              (str ''value'', AttrTensor \<lparr>nd_dtype = 3, nd_shape = [1, 1, 1, 2],
                                         nd_data = [Finite 1, Finite 2]\<rparr>)]\<rparr>"

definition example_graph_int_weights :: "fp graph_def" where
  "example_graph_int_weights =
     [example_input,
      example_int_weights,
      example_conv,
      const_node ''gamma'' [2] [Finite 2, Finite 4],
      const_node ''beta'' [2] [Finite 1, Finite 1],
      const_node ''mean'' [2] [Finite 3, Finite 5],
      const_node ''var'' [2] [Finite 3, Finite (- 1)],
      example_bn,
      example_relu]"

definition example_match_int :: "fp bn_match" where
  "example_match_int =
     example_match\<lparr>weights_op := example_int_weights,
                     weights := \<lparr>nd_dtype = 3, nd_shape = [1, 1, 1, 2],
                                 nd_data = [Finite 1, Finite 2]\<rparr>\<rparr>"

section \<open>Strings: proofs\<close>

lemma str_eq_iff [simp]: "str a = str b \<longleftrightarrow> a = b"
  unfolding str_def by (simp add: inj_map_eq_map inj_on_def)

lemma str_append [simp]: "str a @ str b = str (a @ b)"
  by (simp add: str_def)

lemma str_Nil [simp]: "str [] = []"
  by (simp add: str_def)

lemma str_eq_Nil [simp]: "str a = [] \<longleftrightarrow> a = []"
  by (simp add: str_def)

section \<open>Matching a candidate: proofs\<close>

lemma res_bind_Value: "res_bind x f = Value v \<longleftrightarrow> (\<exists>a. x = Value a \<and> f a = Value v)"
  by (cases x) auto

lemma res_bind_Raise:
  "res_bind x f = Raise e \<longleftrightarrow> x = Raise e \<or> (\<exists>a. x = Value a \<and> f a = Raise e)"
  by (cases x) auto

lemma lift_Value: "lift r = Value a \<longleftrightarrow> r = Inr a"
  by (cases r) (auto simp: lift_def)

lemma lift_Raise: "lift r = Raise e \<longleftrightarrow> r = Inl e"
  by (cases r) (auto simp: lift_def)

lemma lift_not_Continue: "lift r \<noteq> Continue w"
  by (cases r) (auto simp: lift_def)

lemma match_param_Value:
  "match_param R nm n role cc = Value (p, v) \<longleftrightarrow>
     operand R nm n role = Inr p \<and> op p = str ''Const'' \<and> values_from_const p = Inr v
     \<and> nd_shape v = [cc]"
  by (auto simp: match_param_def res_bind_Value lift_Value split: if_splits)

lemma match_param_Raise:
  "match_param R nm n role cc = Raise e \<longleftrightarrow>
     operand R nm n role = Inl e
     \<or> (\<exists>p. operand R nm n role = Inr p \<and> op p = str ''Const'' \<and> values_from_const p = Inl e)"
  by (auto simp: match_param_def res_bind_Raise lift_Value lift_Raise split: if_splits)

lemma match_node_Value:
  "match_node R nm n = Value m \<longleftrightarrow>
     operand R nm n ''conv_op'' = Inr (conv_op m) \<and> is_convolution (conv_op m)
     \<and> weights_operand R nm (conv_op m) = Inr (weights_op m) \<and> op (weights_op m) = str ''Const''
     \<and> values_from_const (weights_op m) = Inr (weights m)
     \<and> get_channel_count (conv_op m) (weights m) = Inr (channel_count m)
     \<and> match_param R nm n ''mean_op'' (channel_count m) = Value (mean_op m, mean_value m)
     \<and> match_param R nm n ''var_op'' (channel_count m) = Value (var_op m, var_value m)
     \<and> match_param R nm n ''beta_op'' (channel_count m) = Value (beta_op m, beta_value m)
     \<and> match_param R nm n ''gamma_op'' (channel_count m) = Value (gamma_op m, gamma_value m)"
  unfolding match_node_def is_convolution_def
  by (cases m) (auto simp: res_bind_Value lift_Value split: if_splits)

lemma match_node_valid_pattern:
  "(\<exists>m. match_node R nm n = Value m) \<longleftrightarrow> valid_pattern R nm n"
proof
  assume "\<exists>m. match_node R nm n = Value m"
  then obtain m where m: "match_node R nm n = Value m" by blast
  show "valid_pattern R nm n"
    unfolding valid_pattern_def param_roles_def
    using m[unfolded match_node_Value match_param_Value]
    by (intro exI[of _ "conv_op m"] exI[of _ "weights_op m"] exI[of _ "weights m"]
          exI[of _ "channel_count m"]) auto
next
  assume "valid_pattern R nm n"
  then obtain cv wop w cc where
    h: "operand R nm n ''conv_op'' = Inr cv" "is_convolution cv"
       "weights_operand R nm cv = Inr wop" "op wop = str ''Const''"
       "values_from_const wop = Inr w" "get_channel_count cv w = Inr cc"
    and ps: "list_all (\<lambda>role. \<exists>p v. operand R nm n role = Inr p \<and> op p = str ''Const''
                              \<and> values_from_const p = Inr v \<and> nd_shape v = [cc]) param_roles"
    unfolding valid_pattern_def by blast
  from ps obtain mop mv where pm: "match_param R nm n ''mean_op'' cc = Value (mop, mv)"
    unfolding param_roles_def match_param_Value by auto
  from ps obtain vop vv where pv: "match_param R nm n ''var_op'' cc = Value (vop, vv)"
    unfolding param_roles_def match_param_Value by auto
  from ps obtain bop bv where pb: "match_param R nm n ''beta_op'' cc = Value (bop, bv)"
    unfolding param_roles_def match_param_Value by auto
  from ps obtain gop gv where pg: "match_param R nm n ''gamma_op'' cc = Value (gop, gv)"
    unfolding param_roles_def match_param_Value by auto
  let ?m = "\<lparr>conv_op = cv, weights_op = wop, weights = w, channel_count = cc,
             mean_op = mop, mean_value = mv, var_op = vop, var_value = vv,
             beta_op = bop, beta_value = bv, gamma_op = gop, gamma_value = gv\<rparr>"
  have "match_node R nm n = Value ?m"
    unfolding match_node_Value using h pm pv pb pg by simp
  then show "\<exists>m. match_node R nm n = Value m" by blast
qed

lemma bind_param_Continue:
  "(\<exists>w. res_bind (match_param R nm n role cc) f = Continue w) =
     (case operand R nm n role of
        Inl e \<Rightarrow> False
      | Inr p \<Rightarrow>
          op p \<noteq> str ''Const''
          \<or> (case values_from_const p of
                Inl e \<Rightarrow> False
              | Inr v \<Rightarrow> nd_shape v \<noteq> [cc] \<or> (\<exists>w. f (p, v) = Continue w)))"
  by (simp add: match_param_def lift_def split: sum.splits)

lemma validation_failure_Continue:
  "validation_failure R nm n \<longleftrightarrow> (\<exists>w. match_node R nm n = Continue w)"
proof (cases "operand R nm n ''conv_op''")
  case (Inl e)
  then show ?thesis by (simp add: validation_failure_def match_node_def lift_def)
next
  case cv: (Inr cv)
  show ?thesis
  proof (cases "is_convolution cv")
    case False
    then show ?thesis
      using cv by (simp add: validation_failure_def match_node_def lift_def is_convolution_def)
  next
    case conv: True
    show ?thesis
    proof (cases "weights_operand R nm cv")
      case (Inl e)
      then show ?thesis
        using cv conv
        by (auto simp: validation_failure_def match_node_def lift_def is_convolution_def)
    next
      case wop: (Inr wop)
      show ?thesis
      proof (cases "op wop = str ''Const''")
        case False
        then show ?thesis
          using cv conv wop
          by (auto simp: validation_failure_def match_node_def lift_def is_convolution_def)
      next
        case const: True
        show ?thesis
        proof (cases "values_from_const wop")
          case (Inl e)
          then show ?thesis
            using cv conv wop const
            by (auto simp: validation_failure_def match_node_def lift_def is_convolution_def)
        next
          case w: (Inr w)
          show ?thesis
          proof (cases "get_channel_count cv w")
            case (Inl e)
            then show ?thesis
              using cv conv wop const w
              by (auto simp: validation_failure_def match_node_def lift_def is_convolution_def)
          next
            case cc: (Inr cc)
            have vf: "validation_failure R nm n = param_failure R nm n cc param_roles"
              using cv conv wop const w cc by (simp add: validation_failure_def)
            have mn: "match_node R nm n =
              res_bind (match_param R nm n ''mean_op'' cc) (\<lambda>(mop, mv).
               res_bind (match_param R nm n ''var_op'' cc) (\<lambda>(vop, vv).
                 res_bind (match_param R nm n ''beta_op'' cc) (\<lambda>(bop, bv).
                   res_bind (match_param R nm n ''gamma_op'' cc) (\<lambda>(gop, gv).
                     Value \<lparr>conv_op = cv, weights_op = wop, weights = w,
                            channel_count = cc,
                            mean_op = mop, mean_value = mv,
                            var_op = vop, var_value = vv,
                            beta_op = bop, beta_value = bv,
                            gamma_op = gop, gamma_value = gv\<rparr>))))"
              using cv conv wop const w cc
              by (auto simp: match_node_def lift_def is_convolution_def)
            show ?thesis
              unfolding vf mn param_roles_def
              by (simp add: bind_param_Continue split: sum.splits)
          qed
        qed
      qed
    qed
  qed
qed


lemma scan_nodes_append:
  "scan_nodes R nm (pre @ post) st =
     (case scan_nodes R nm pre st of Inl e \<Rightarrow> Inl e | Inr st1 \<Rightarrow> scan_nodes R nm post st1)"
  by (induction pre arbitrary: st) (auto split: res.splits sum.splits)

section \<open>The node map: proofs\<close>

lemma input_node_map_loop_distinct:
  "distinct (map name ns) \<Longrightarrow> name ` set ns \<inter> dom m = {} \<Longrightarrow>
   input_node_map_loop ns m = Inr (m ++ map_of (map (\<lambda>n. (name n, n)) ns))"
proof (induction ns arbitrary: m)
  case Nil
  then show ?case by simp
next
  case (Cons n ns)
  let ?f = "map_of (map (\<lambda>n. (name n, n)) ns)"
  have none: "m (name n) = None" using Cons.prems(2) by (auto simp: domIff)
  have notin: "name n \<notin> dom ?f"
    using Cons.prems(1) by (auto simp: dom_map_of_conv_image_fst image_image)
  have d: "distinct (map name ns)" and nn: "name n \<notin> name ` set ns"
    using Cons.prems(1) by auto
  have "name ` set ns \<inter> dom m = {}" using Cons.prems(2) by auto
  then have "name ` set ns \<inter> dom (m(name n \<mapsto> n)) = {}" using nn by auto
  with d have "input_node_map_loop ns (m(name n \<mapsto> n)) = Inr (m(name n \<mapsto> n) ++ ?f)"
    by (rule Cons.IH)
  then have e1: "input_node_map_loop (n # ns) m = Inr (m(name n \<mapsto> n) ++ ?f)"
    using none by (simp only: input_node_map_loop.simps if_True simp_thms)
  have e2: "m(name n \<mapsto> n) ++ ?f = (m ++ ?f)(name n \<mapsto> n)"
    using notin by (rule map_add_upd_left)
  have e3: "map_of (map (\<lambda>n. (name n, n)) (n # ns)) = ?f(name n \<mapsto> n)"
    by (simp only: list.map map_of.simps fst_conv snd_conv)
  have e4: "m ++ ?f(name n \<mapsto> n) = (m ++ ?f)(name n \<mapsto> n)"
    by (rule map_add_upd)
  show ?case unfolding e1 e2 e3 e4 ..
qed

lemma build_input_node_map_distinct:
  "distinct (map name g) \<Longrightarrow> build_input_node_map g = Inr (node_map_of g)"
  by (simp add: build_input_node_map_def node_map_of_def input_node_map_loop_distinct)

lemma node_map_of_member:
  "distinct (map name g) \<Longrightarrow> n \<in> set g \<Longrightarrow> node_map_of g (name n) = Some n"
  unfolding node_map_of_def
  by (rule map_of_is_SomeI) (auto simp: comp_def)


section \<open>The scan: proofs\<close>



lemma scan_nodes_step_plain:
  "\<not> is_batch_norm n \<Longrightarrow> scan_nodes R nm (n # ns) st = scan_nodes R nm ns st"
  by simp

lemma scan_nodes_step_continue:
  "is_batch_norm n \<Longrightarrow> match_node R nm n = Continue w \<Longrightarrow>
   scan_nodes R nm (n # ns) st = scan_nodes R nm ns (st\<lparr>warnings := warnings st @ [w]\<rparr>)"
  by simp

lemma scan_nodes_step_fold:
  "is_batch_norm n \<Longrightarrow> match_node R nm n = Value m \<Longrightarrow> fold_ops R n m = Inr ops \<Longrightarrow>
   scan_nodes R nm (n # ns) st =
     scan_nodes R nm ns (st\<lparr>nodes_to_skip := nodes_to_skip st \<union> skipped_names n m,
                          new_ops := new_ops st @ ops\<rparr>)"
  by simp

lemma scan_nodes_cases:
  assumes "scan_nodes R nm (n # ns) st = Inr st'"
  obtains (plain) "\<not> is_batch_norm n" "scan_nodes R nm ns st = Inr st'"
  | (skip) w where "is_batch_norm n" "match_node R nm n = Continue w"
      "scan_nodes R nm ns (st\<lparr>warnings := warnings st @ [w]\<rparr>) = Inr st'"
  | (fold) m ops where "is_batch_norm n" "match_node R nm n = Value m" "fold_ops R n m = Inr ops"
      "scan_nodes R nm ns (st\<lparr>nodes_to_skip := nodes_to_skip st \<union> skipped_names n m,
                          new_ops := new_ops st @ ops\<rparr>) = Inr st'"
  using assms by (auto split: if_splits res.splits sum.splits)





lemma scan_nodes_all_skipped:
  "\<forall>n \<in> set ns. is_batch_norm n \<longrightarrow> (\<exists>w. match_node R nm n = Continue w) \<Longrightarrow>
   \<exists>ws. scan_nodes R nm ns st = Inr (st\<lparr>warnings := warnings st @ ws\<rparr>)
       \<and> length ws = length (filter is_batch_norm ns)"
proof (induction ns arbitrary: st)
  case Nil
  show ?case by (rule exI[of _ "[]"]) simp
next
  case (Cons a ns)
  have rest: "\<forall>n \<in> set ns. is_batch_norm n \<longrightarrow> (\<exists>w. match_node R nm n = Continue w)"
    using Cons.prems by simp
  show ?case
  proof (cases "is_batch_norm a")
    case False
    from Cons.IH[OF rest, of st] show ?thesis using False by simp
  next
    case True
    then obtain w where w: "match_node R nm a = Continue w" using Cons.prems by auto
    from Cons.IH[OF rest, of "st\<lparr>warnings := warnings st @ [w]\<rparr>"] obtain ws where
      ws: "scan_nodes R nm ns (st\<lparr>warnings := warnings st @ [w]\<rparr>)
             = Inr (st\<lparr>warnings := warnings st @ [w]\<rparr>\<lparr>warnings := warnings (st\<lparr>warnings := warnings st @ [w]\<rparr>) @ ws\<rparr>)"
          "length ws = length (filter is_batch_norm ns)"
      by blast
    have "scan_nodes R nm (a # ns) st = Inr (st\<lparr>warnings := warnings st @ (w # ws)\<rparr>)"
      using scan_nodes_step_continue[OF True w, of ns st] ws(1) by simp
    moreover have "length (w # ws) = length (filter is_batch_norm (a # ns))"
      using ws(2) True by simp
    ultimately show ?thesis by blast
  qed
qed

lemma scan_nodes_no_match:
  "scan_nodes R nm ns st = Inr st' \<Longrightarrow>
   \<forall>n \<in> set ns. is_batch_norm n \<longrightarrow> \<not> valid_pattern R nm n \<Longrightarrow>
   \<exists>ws. st' = st\<lparr>warnings := warnings st @ ws\<rparr>
       \<and> length ws = length (filter is_batch_norm ns)"
proof (induction ns arbitrary: st)
  case Nil
  then have "st' = st\<lparr>warnings := warnings st @ []\<rparr> \<and> length [] = length (filter is_batch_norm [])"
    by simp
  then show ?case by blast
next
  case (Cons a ns)
  have rest: "\<forall>n \<in> set ns. is_batch_norm n \<longrightarrow> \<not> valid_pattern R nm n"
    using Cons.prems(2) by simp
  from Cons.prems(1) show ?case
  proof (cases rule: scan_nodes_cases)
    case plain
    from Cons.IH[OF plain(2) rest] plain(1) show ?thesis by simp
  next
    case (skip w)
    from Cons.IH[OF skip(3) rest] obtain ws where
      ws: "st' = st\<lparr>warnings := warnings st @ [w]\<rparr>\<lparr>warnings :=
                   warnings (st\<lparr>warnings := warnings st @ [w]\<rparr>) @ ws\<rparr>"
          "length ws = length (filter is_batch_norm ns)"
      by blast
    have "st' = st\<lparr>warnings := warnings st @ (w # ws)\<rparr>" using ws(1) by simp
    moreover have "length (w # ws) = length (filter is_batch_norm (a # ns))"
      using ws(2) skip(1) by simp
    ultimately show ?thesis by blast
  next
    case (fold m ops)
    then have "valid_pattern R nm a" using match_node_valid_pattern by blast
    then show ?thesis using fold(1) Cons.prems(2) by simp
  qed
qed

section \<open>Candidates that fail validation: proofs\<close>








lemma do_transform_Inr:
  assumes "distinct (map name g)" and "do_transform R g = Inr (out, ws)"
  shows "\<exists>st'. scan_nodes R (node_map_of g) g initial_scan = Inr st'
           \<and> out = result_graph g st' \<and> ws = warnings st'"
  using assms
  by (auto simp: do_transform_def build_input_node_map_distinct split: sum.splits)

section \<open>The new nodes: proofs\<close>

lemma map_err_Inr_D:
  "map_err f xs = Inr ys \<Longrightarrow> list_all2 (\<lambda>x y. f x = Inr y) xs ys"
  by (induction xs arbitrary: ys) (auto split: sum.splits)

lemma map_err_Inr_I:
  "list_all2 (\<lambda>x y. f x = Inr y) xs ys \<Longrightarrow> map_err f xs = Inr ys"
  by (induction rule: list_all2_induct) auto

lemma map_err_length: "map_err f xs = Inr ys \<Longrightarrow> length ys = length xs"
  by (drule map_err_Inr_D) (simp add: list_all2_lengthD)

lemma map_err_nth: "map_err f xs = Inr ys \<Longrightarrow> i < length xs \<Longrightarrow> f (xs ! i) = Inr (ys ! i)"
  by (drule map_err_Inr_D) (auto dest: list_all2_nthD)





section \<open>Name resolution: proofs\<close>

lemma rev_split_last_colon:
  assumes "cp_colon \<in> set body"
  shows "body = rev (tl (dropWhile (\<lambda>c. c \<noteq> cp_colon) (rev body))) @ [cp_colon]
               @ rev (takeWhile (\<lambda>c. c \<noteq> cp_colon) (rev body))"
proof -
  let ?P = "\<lambda>c. c \<noteq> cp_colon"
  have ne: "dropWhile ?P (rev body) \<noteq> []"
    using assms by (simp add: dropWhile_eq_Nil_conv)
  then have "hd (dropWhile ?P (rev body)) = cp_colon"
    using hd_dropWhile[of ?P "rev body"] by blast
  with ne have d: "dropWhile ?P (rev body) = cp_colon # tl (dropWhile ?P (rev body))"
    by (metis list.collapse)
  have "rev body = takeWhile ?P (rev body) @ dropWhile ?P (rev body)"
    by simp
  then have "rev body = takeWhile ?P (rev body) @ cp_colon # tl (dropWhile ?P (rev body))"
    using d by metis
  then have "rev (rev body) = rev (takeWhile ?P (rev body) @ cp_colon # tl (dropWhile ?P (rev body)))"
    by metis
  then show ?thesis by simp
qed

lemma caret_not_colon [simp]: "cp_caret \<noteq> cp_colon" "cp_colon \<noteq> cp_caret"
  by (simp_all add: cp_caret_def cp_colon_def)

lemma digit_not_colon: "is_digit R c \<Longrightarrow> c \<noteq> cp_colon"
  by (auto simp: is_digit_def cp_colon_def)

lemma digit_not_newline: "is_digit R c \<Longrightarrow> c \<noteq> cp_newline"
  by (auto simp: is_digit_def cp_newline_def)

lemma slot_suffix_search_decorated:
  assumes nl: "cp_newline \<notin> set b" and ne: "ds \<noteq> []" and dg: "list_all (is_digit R) ds"
  shows "slot_suffix_search R (b @ [cp_colon] @ ds) = Some b"
proof -
  let ?s = "b @ [cp_colon] @ ds"
  let ?P = "\<lambda>c. c \<noteq> cp_colon"
  have lastd: "last ?s = last ds" using ne by simp
  have "is_digit R (last ds)" using ne dg by (simp add: list_all_iff)
  then have "last ?s \<noteq> cp_newline" using lastd digit_not_newline by metis
  then have body: "(if ?s \<noteq> [] \<and> last ?s = cp_newline then butlast ?s else ?s) = ?s" by simp
  have allP: "\<forall>c \<in> set (rev ds). ?P c"
    using dg digit_not_colon by (auto simp: list_all_iff)
  have r: "rev ?s = rev ds @ cp_colon # rev b" by simp
  have tw: "takeWhile ?P (rev ?s) = rev ds"
    unfolding r using takeWhile_append2[of "rev ds" ?P "cp_colon # rev b"] allP by simp
  have dw: "dropWhile ?P (rev ?s) = cp_colon # rev b"
    unfolding r using dropWhile_append2[of "rev ds" ?P "cp_colon # rev b"] allP by simp
  have "takeWhile (\<lambda>c. c \<noteq> cp_newline) (rev b) = rev b"
    by (rule takeWhile_eq_all_conv[THEN iffD2]) (use nl in auto)
  then have nlb: "rev (takeWhile (\<lambda>c. c \<noteq> cp_newline) (rev b)) = b"
    by (metis rev_rev_ident)
  show ?thesis
    unfolding slot_suffix_search_def body Let_def tw dw
    using ne dg nlb by (simp add: list_all_iff)
qed

lemma slot_suffix_search_plain:
  assumes "\<not> has_slot_suffix R s" and "cp_newline \<notin> set s"
  shows "slot_suffix_search R s = None"
proof -
  let ?P = "\<lambda>c. c \<noteq> cp_colon"
  have body: "(if s \<noteq> [] \<and> last s = cp_newline then butlast s else s) = s"
    using assms(2) last_in_set by fastforce
  show ?thesis
  proof (rule ccontr)
    assume "slot_suffix_search R s \<noteq> None"
    then have c: "cp_colon \<in> set s" and d: "takeWhile ?P (rev s) \<noteq> []"
      and a: "list_all (is_digit R) (takeWhile ?P (rev s))"
      unfolding slot_suffix_search_def body Let_def by (auto split: if_splits)
    from rev_split_last_colon[OF c] d a have "has_slot_suffix R s"
      unfolding has_slot_suffix_def
      by (metis list_all_rev rev_is_Nil_conv)
    with assms(1) show False by simp
  qed
qed

lemma has_slot_suffix_strip:
  "has_slot_suffix R (strip_control_marker s) = has_slot_suffix R s"
proof (cases "s \<noteq> [] \<and> hd s = cp_caret")
  case False
  then show ?thesis by (auto simp: strip_control_marker_def)
next
  case True
  then obtain t where s: "s = cp_caret # t" by (cases s) auto
  have "has_slot_suffix R t = has_slot_suffix R (cp_caret # t)"
  proof
    assume "has_slot_suffix R t"
    then obtain b ds where "t = b @ [cp_colon] @ ds" "ds \<noteq> []" "list_all (is_digit R) ds"
      unfolding has_slot_suffix_def by blast
    then have "cp_caret # t = (cp_caret # b) @ [cp_colon] @ ds \<and> ds \<noteq> [] \<and> list_all (is_digit R) ds"
      by simp
    then show "has_slot_suffix R (cp_caret # t)" unfolding has_slot_suffix_def by blast
  next
    assume "has_slot_suffix R (cp_caret # t)"
    then obtain b ds where h: "cp_caret # t = b @ [cp_colon] @ ds" "ds \<noteq> []" "list_all (is_digit R) ds"
      unfolding has_slot_suffix_def by blast
    then have "b \<noteq> []" by (cases b) auto
    then obtain b' where "b = cp_caret # b'" using h(1) by (cases b) auto
    with h have "t = b' @ [cp_colon] @ ds \<and> ds \<noteq> [] \<and> list_all (is_digit R) ds" by simp
    then show "has_slot_suffix R t" unfolding has_slot_suffix_def by blast
  qed
  then show ?thesis using s by (simp add: strip_control_marker_def)
qed

lemma node_name1_strip:
  "(case s of c # rest \<Rightarrow> if c = cp_caret then rest else s | [] \<Rightarrow> s) = strip_control_marker s"
  by (cases s) (auto simp: strip_control_marker_def)

lemma strip_control_marker_append:
  "strip_control_marker (b @ [cp_colon] @ ds) = strip_control_marker b @ [cp_colon] @ ds"
  by (cases b) (auto simp: strip_control_marker_def)

lemma set_strip_control_marker: "set (strip_control_marker s) \<subseteq> set s"
  by (cases s) (auto simp: strip_control_marker_def)

lemma no_colon_no_suffix: "cp_colon \<notin> set s \<Longrightarrow> \<not> has_slot_suffix R s"
  unfolding has_slot_suffix_def by auto

section \<open>The example graphs: evaluation\<close>

lemmas example_defs =
  example_graph_bad_mean_def example_graph_dangling_def example_graph_no_var_def
  example_graph_foldable_def example_graph_global_def example_graph_int_weights_def
  example_input_def example_conv_def example_bn_def example_bn_global_def example_relu_def
  example_gamma_placeholder_def example_int_weights_def const_node_def

lemmas lookup_defs =
  node_map_of_def operand_def weights_operand_def list_at_def list_index_def INPUT_ORDER_def
  node_from_map_def values_from_const_def MakeNdarray_def attr_of_def get_channel_count_def

lemma example_refs:
  "node_name_from_input R (str ''x'') = str ''x''"
  "node_name_from_input R (str ''w:0'') = str ''w''"
  "node_name_from_input R (str ''conv'') = str ''conv''"
  "node_name_from_input R (str ''gamma'') = str ''gamma''"
  "node_name_from_input R (str ''beta'') = str ''beta''"
  "node_name_from_input R (str ''mean'') = str ''mean''"
  "node_name_from_input R (str ''var'') = str ''var''"
  "node_name_from_input R (str ''bn'') = str ''bn''"
  by (simp_all add: node_name_from_input_def slot_suffix_search_def cp_newline_def cp_colon_def
        cp_caret_def is_digit_def str_def)

text \<open>The scan of a graph with one batch-norm node.\<close>

lemma scan_nodes_plain:
  "\<forall>k \<in> set ns. \<not> is_batch_norm k \<Longrightarrow> scan_nodes R nm ns st = Inr st"
  by (induction ns) auto

lemma scan_nodes_single:
  assumes "\<forall>k \<in> set pre. \<not> is_batch_norm k" "\<forall>k \<in> set post. \<not> is_batch_norm k"
    and "is_batch_norm n"
  shows "scan_nodes R nm (pre @ n # post) st =
           (case match_node R nm n of
              Raise e \<Rightarrow> Inl e
            | Continue w \<Rightarrow> Inr (st\<lparr>warnings := warnings st @ [w]\<rparr>)
            | Value m \<Rightarrow>
                (case fold_ops R n m of
                   Inl e \<Rightarrow> Inl e
                 | Inr ops \<Rightarrow> Inr (st\<lparr>nodes_to_skip := nodes_to_skip st \<union> skipped_names n m,
                                       new_ops := new_ops st @ ops\<rparr>)))"
  unfolding scan_nodes_append scan_nodes_plain[OF assms(1)] sum.case
  using assms(3) scan_nodes_plain[OF assms(2)]
  by (simp split: res.splits sum.splits)

lemma example_bn_is_batch_norm: "is_batch_norm example_bn"
  by (simp add: is_batch_norm_def example_bn_def)

lemma example_bn_global_is_batch_norm: "is_batch_norm example_bn_global"
  by (simp add: is_batch_norm_def example_bn_global_def)

lemma example_plain_nodes:
  "\<not> is_batch_norm example_input" "\<not> is_batch_norm example_conv"
  "\<not> is_batch_norm example_relu" "\<not> is_batch_norm (const_node nm shape vals)"
  "\<not> is_batch_norm example_gamma_placeholder" "\<not> is_batch_norm example_int_weights"
  by (simp_all add: is_batch_norm_def example_defs)

subsection \<open>A mean of the wrong shape\<close>

lemma example_bad_mean_distinct: "distinct (map name example_graph_bad_mean)"
  by (simp add: example_defs)

lemma example_bad_mean_match:
  "match_node R (node_map_of example_graph_bad_mean) example_bn
     = Continue (IncorrectShape ''mean_op'' [3] 2 (str ''bn''))"
  by (simp add: match_node_def match_param_def lift_def example_defs lookup_defs example_refs)

lemma example_bad_mean_invalid:
  "\<not> valid_pattern R (node_map_of example_graph_bad_mean) example_bn"
  using example_bad_mean_match[of R]
    match_node_valid_pattern[of R "node_map_of example_graph_bad_mean" example_bn]
  by auto

lemma example_bad_mean_failure:
  "validation_failure R (node_map_of example_graph_bad_mean) example_bn"
  unfolding validation_failure_Continue example_bad_mean_match by simp


lemma example_bad_mean_only_bn:
  "n \<in> set example_graph_bad_mean \<Longrightarrow> is_batch_norm n \<Longrightarrow> n = example_bn"
  by (auto simp: example_defs is_batch_norm_def)



subsection \<open>A reference to an absent node\<close>

lemma example_dangling_match:
  "match_node R (node_map_of example_graph_dangling) (hd example_graph_dangling)
     = Raise (NoNodeNamed (str ''conv''))"
  by (simp add: match_node_def lift_def example_defs lookup_defs example_refs)

lemma example_dangling_run:
  "do_transform R example_graph_dangling = Inl (NoNodeNamed (str ''conv''))"
  by (simp add: do_transform_def build_input_node_map_def initial_scan_def is_batch_norm_def
        match_node_def lift_def example_defs lookup_defs example_refs)

subsection \<open>A placeholder gamma after an absent variance\<close>






subsection \<open>A graph that folds\<close>



lemma example_epsilon: "variance_epsilon_value example_runtime example_bn = Finite 1"
  by (simp add: variance_epsilon_value_def EPSILON_ATTR_def attr_f_def attr_of_def
        example_bn_def)

lemma example_flag: "scale_after_normalization example_bn"
  by (simp add: scale_after_normalization_def example_bn_def)



lemma example_upt2: "[0..<length [a, b]] = [0, 1]"
  by (simp add: upt_rec)


lemma example_cast_offset:
  "map_err (cast_offset example_runtime dts) xs = Inr xs"
  by (induction xs) (simp_all add: example_runtime_def)










subsection \<open>The other variant, gamma left out\<close>

lemma example_global_distinct: "distinct (map name example_graph_global)"
  by (simp add: example_defs)

lemma example_global_match:
  "match_node R (node_map_of example_graph_global) example_bn_global = Value example_match"
  by (simp add: match_node_def match_param_def lift_def example_match_def example_defs
        lookup_defs example_refs)

lemma example_global_epsilon:
  "variance_epsilon_value example_runtime example_bn_global = Finite 1"
  by (simp add: variance_epsilon_value_def EPSILON_ATTR_def attr_f_def attr_of_def
        example_bn_global_def)

lemma example_global_flag: "\<not> scale_after_normalization example_bn_global"
  by (simp add: scale_after_normalization_def example_bn_global_def attr_of_def attr_b_def)

lemma example_global_scale_value:
  "scale_value example_runtime example_bn_global example_match = Inr [Finite (1 / 2), PosInf]"
  unfolding scale_value_def Let_def example_global_epsilon
  by (simp add: example_global_flag example_match_def example_runtime_def)

lemma example_global_offset_value:
  "offset_value example_runtime example_bn_global example_match [Finite (1 / 2), PosInf]
     = Inr [Finite (- (1 / 2)), NegInf]"
  unfolding offset_value_def Let_def
  by (simp add: example_match_def example_runtime_def inf_times_def)

lemma example_global_scaled_weights:
  "scaled_weights example_runtime example_bn_global example_match [Finite (1 / 2), PosInf]
     = Inr [Finite (1 / 2), PosInf]"
proof -
  have w: "nd_data (weights example_match) = [Finite 1, Finite 2]"
    and s: "nd_shape (weights example_match) = [1, 1, 1, 2]"
    and c: "op (conv_op example_match) = str ''Conv2D''"
    and d: "weights_dtype (dtypes_of example_bn_global example_match) = 1"
    by (simp_all add: example_match_def example_conv_def dtypes_of_def)
  have i: "imul_scale example_runtime dts x y
             = (if integer_dtype (weights_dtype dts) then Inl UFuncTypeError
                else Inr (fp_times x y))" for dts x y
    by (simp add: example_runtime_def)
  show ?thesis
    unfolding scaled_weights_def w example_upt2 current_scale_index_def Let_def s c i d
    by (simp add: integer_dtype_def inf_times_def)
qed

lemma example_global_nodes:
  "scaled_weights_node example_match [Finite (1 / 2), PosInf]
     = const_node ''w'' [1, 1, 1, 2] [Finite (1 / 2), PosInf]"
  "offset_node example_match [Finite (- (1 / 2)), NegInf]
     = const_node ''conv_bn_offset'' [2] [Finite (- (1 / 2)), NegInf]"
  "bias_add_node example_bn_global example_match = example_bias_add"
  by (simp_all add: scaled_weights_node_def offset_node_def bias_add_node_def example_match_def
        const_node_def attr_of_def example_conv_def example_bias_add_def example_bn_global_def)

lemma example_global_fold_ops:
  "fold_ops example_runtime example_bn_global example_match = Inr example_new_ops_global"
  unfolding fold_ops_def example_global_scale_value sum.case example_global_offset_value
    example_global_scaled_weights example_cast_offset example_global_nodes
    example_new_ops_global_def
  by (simp add: example_match_def)

lemma example_global_split:
  "example_graph_global =
     [example_input, const_node ''w'' [1, 1, 1, 2] [Finite 1, Finite 2], example_conv,
      const_node ''gamma'' [2] [Finite 2, Finite 4], const_node ''beta'' [2] [Finite 1, Finite 1],
      const_node ''mean'' [2] [Finite 3, Finite 5],
      const_node ''var'' [2] [Finite 3, Finite (- 1)]]
     @ example_bn_global # [example_relu]"
  by (simp add: example_graph_global_def)

lemma example_global_scan:
  "scan_nodes R nm example_graph_global st =
     (case match_node R nm example_bn_global of
        Raise e \<Rightarrow> Inl e
      | Continue w \<Rightarrow> Inr (st\<lparr>warnings := warnings st @ [w]\<rparr>)
      | Value m \<Rightarrow>
          (case fold_ops R example_bn_global m of
             Inl e \<Rightarrow> Inl e
           | Inr ops \<Rightarrow>
               Inr (st\<lparr>nodes_to_skip := nodes_to_skip st \<union> skipped_names example_bn_global m,
                       new_ops := new_ops st @ ops\<rparr>)))"
  by (subst example_global_split, rule scan_nodes_single)
     (simp_all add: example_plain_nodes example_bn_global_is_batch_norm)

lemma example_global_skipped_names:
  "skipped_names example_bn_global example_match
     = {str ''bn'', str ''w'', str ''mean'', str ''var'', str ''beta'', str ''gamma'', str ''conv''}"
  by (simp add: skipped_names_def example_match_def example_bn_global_def example_conv_def
        const_node_def)

lemma example_global_result:
  "result_graph example_graph_global
     \<lparr>nodes_to_skip = {str ''bn'', str ''w'', str ''mean'', str ''var'', str ''beta'',
                       str ''gamma'', str ''conv''},
      new_ops = ops, warnings = []\<rparr> = [example_input, example_relu] @ ops"
  by (simp add: result_graph_def example_graph_global_def
        example_input_def example_conv_def example_relu_def example_bn_global_def const_node_def)

lemma example_global_run:
  "do_transform example_runtime example_graph_global
     = Inr ([example_input, example_relu] @ example_new_ops_global, [])"
proof -
  have "do_transform example_runtime example_graph_global
          = Inr (result_graph example_graph_global
                   \<lparr>nodes_to_skip = {str ''bn'', str ''w'', str ''mean'', str ''var'',
                                     str ''beta'', str ''gamma'', str ''conv''},
                    new_ops = example_new_ops_global, warnings = []\<rparr>, [])"
    by (simp add: do_transform_def build_input_node_map_distinct[OF example_global_distinct]
          example_global_scan example_global_match example_global_fold_ops initial_scan_def
          example_global_skipped_names)
  then show ?thesis unfolding example_global_result .
qed

subsection \<open>Weights of an integer type\<close>

lemma example_int_weights_distinct: "distinct (map name example_graph_int_weights)"
  by (simp add: example_defs)

lemma example_int_weights_match:
  "match_node R (node_map_of example_graph_int_weights) example_bn = Value example_match_int"
  by (simp add: match_node_def match_param_def lift_def example_match_def example_match_int_def
        example_defs lookup_defs example_refs)

lemma example_int_weights_fold_ops:
  "fold_ops example_runtime example_bn example_match_int = Inl UFuncTypeError"
proof -
  let ?m = "example_match_int"
  have sv: "scale_value example_runtime example_bn ?m = Inr [Finite 1, PosInf]"
    unfolding scale_value_def Let_def example_epsilon
    by (simp add: example_flag example_match_def example_match_int_def example_runtime_def
          inf_times_def)
  have ov: "offset_value example_runtime example_bn ?m [Finite 1, PosInf]
              = Inr [Finite (- 2), NegInf]"
    unfolding offset_value_def Let_def
    by (simp add: example_match_def example_match_int_def example_runtime_def inf_times_def)
  have w: "nd_data (weights ?m) = [Finite 1, Finite 2]"
    and d: "weights_dtype (dtypes_of example_bn ?m) = 3"
    by (simp_all add: dtypes_of_def example_match_int_def)
  have i: "imul_scale example_runtime dts x y
             = (if integer_dtype (weights_dtype dts) then Inl UFuncTypeError
                else Inr (fp_times x y))" for dts x y
    by (simp add: example_runtime_def)
  have sw: "scaled_weights example_runtime example_bn ?m [Finite 1, PosInf] = Inl UFuncTypeError"
    unfolding scaled_weights_def w example_upt2 i d
    by (simp add: integer_dtype_def)
  show ?thesis unfolding fold_ops_def sv sum.case ov sw ..
qed

lemma example_int_weights_split:
  "example_graph_int_weights =
     [example_input, example_int_weights, example_conv,
      const_node ''gamma'' [2] [Finite 2, Finite 4], const_node ''beta'' [2] [Finite 1, Finite 1],
      const_node ''mean'' [2] [Finite 3, Finite 5],
      const_node ''var'' [2] [Finite 3, Finite (- 1)]]
     @ example_bn # [example_relu]"
  by (simp add: example_graph_int_weights_def)

lemma example_int_weights_run:
  "do_transform example_runtime example_graph_int_weights = Inl UFuncTypeError"
proof -
  have "scan_nodes R nm example_graph_int_weights st =
     (case match_node R nm example_bn of
        Raise e \<Rightarrow> Inl e
      | Continue w \<Rightarrow> Inr (st\<lparr>warnings := warnings st @ [w]\<rparr>)
      | Value m \<Rightarrow>
          (case fold_ops R example_bn m of
             Inl e \<Rightarrow> Inl e
           | Inr ops \<Rightarrow> Inr (st\<lparr>nodes_to_skip := nodes_to_skip st \<union> skipped_names example_bn m,
                                 new_ops := new_ops st @ ops\<rparr>)))" for R nm st
    by (subst example_int_weights_split, rule scan_nodes_single)
       (simp_all add: example_plain_nodes example_bn_is_batch_norm)
  then show ?thesis
    by (simp add: do_transform_def
          build_input_node_map_distinct[OF example_int_weights_distinct]
          example_int_weights_match example_int_weights_fold_ops)
qed

section \<open>The converter: proofs\<close>

lemma and_then_ok: "f c = (c', None) \<Longrightarrow> and_then f g c = g c'"
  by (simp add: and_then_def)

lemma and_then_raise: "f c = (c', Some e) \<Longrightarrow> and_then f g c = (c', Some e)"
  by (simp add: and_then_def)

lemma quantize_result:
  "snd (quantize E c) =
     (case import_graph_def E (tmp_graph (fst (quantize E c))) of
        Inl e \<Rightarrow> Inl e | Inr graph \<Rightarrow> Inr graph)"
  by (auto simp: quantize_def quantize_finally_def Let_def split: prod.splits sum.splits)

lemma tmp_graph_post_clean [simp]: "tmp_graph (post_clean c) = tmp_graph c"
  by (simp add: tmp_graph_def post_clean_def split: option.splits)

lemma tmp_graph_error_log [simp]: "tmp_graph (c\<lparr>error_log := l\<rparr>) = tmp_graph c"
  by (simp add: tmp_graph_def split: option.splits)

lemma quantize_except_graph: "tmp_graph (fst (quantize_except r)) = tmp_graph (fst r)"
  by (cases r) (auto simp: quantize_except_def split: option.splits)

lemma quantize_finally_result:
  "snd (quantize_finally E r) =
     (case import_graph_def E (tmp_graph (fst r)) of Inl e \<Rightarrow> Inl e | Inr graph \<Rightarrow> Inr graph)"
  by (cases r) (auto simp: quantize_finally_def Let_def split: sum.splits)

lemma quantize_swallows:
  assumes "quantize_try E c = (c1, Some e)"
    and "import_graph_def E (tmp_graph c1) = Inr graph"
  shows "snd (quantize E c) = Inr graph"
  using assms
  by (simp add: quantize_def quantize_finally_result quantize_except_graph)

text \<open>
  C2. The claim does not hold of the code: when a step inside the \<open>try\<close>
  block raises, the message is logged and the clean-up removes the logged-graph
  file, but the \<open>return\<close> in the \<open>finally\<close> clause discards the
  \<open>ValueError\<close>: \<open>quantize\<close> returns a graph built from the current
  \<open>_tmp_graph_def\<close>. In the example run the calibration step raises.
\<close>

theorem quantize_returns_despite_failure:
  "quantize_try failing_calibration example_converter
     = (fst (quantize_try failing_calibration example_converter), Some (PyException ''inference failed''))
   \<and> snd (quantize failing_calibration example_converter)
       = Inr (Some [\<lparr>name = str ''x'', op = str ''Placeholder'', input = [], attr = []\<rparr>])
   \<and> error_log (fst (quantize failing_calibration example_converter))
       = [''Failed to quantize graph due to: inference failed'']
   \<and> files (fst (quantize_try failing_calibration example_converter)) ''int8_logged_graph.pb'' \<noteq> None
   \<and> files (fst (quantize failing_calibration example_converter)) ''int8_logged_graph.pb'' = None"
  by (simp add: quantize_def quantize_finally_def quantize_except_def quantize_try_def
        insert_logging_def insert_logging_in_place_def write_graph_def and_then_def
        post_clean_def tmp_graph_def failing_calibration_def example_converter_def
        print_node_def Let_def)

section \<open>Capturing a stream: proofs\<close>

lemma readOutput_separate_sentinel:
  "\<forall>c \<in> set cs. c \<noteq> [] \<and> last c \<noteq> escape_char \<Longrightarrow>
   readOutput (cs @ [[escape_char]] @ later) acc = Some (acc @ concat cs)"
  by (induction cs arbitrary: acc) auto

lemma readOutput_same_chunk:
  "w \<noteq> [] \<Longrightarrow> readOutput ([w @ [escape_char]] @ later) acc = Some acc"
  by simp

lemma stop_unthreaded_loses_text:
  assumes "length w < 10240"
  shows "stop_unthreaded w = Some []"
proof -
  obtain c cs where e: "w @ [escape_char] = c # cs" by (cases w) auto
  have "take 10240 (w @ [escape_char]) = w @ [escape_char]" using assms by simp
  then have "pipe_reads 10240 (w @ [escape_char])
               = (w @ [escape_char]) # pipe_reads 10240 (drop 10240 (w @ [escape_char]))"
    unfolding e by simp
  then show ?thesis by (simp add: stop_unthreaded_def)
qed

text \<open>
  C3. The claim does not hold of the code: when the escape character arrives in
  the same read as text before it, \<open>readOutput\<close> leaves the loop without
  appending that chunk. A grabber that is not threaded reads only after
  \<open>stop\<close> has written the escape character, so a short text is lost whole;
  in a later chunk the text that shares it with the escape character is lost.
\<close>

theorem capture_loses_text_read_with_sentinel:
  "stop_unthreaded ''requant_min_max'' = Some []
   \<and> escape_char \<notin> set ''requant_min_max''
   \<and> readOutput [''requant'', ''_min_max'' @ [escape_char]] [] = Some ''requant''"
  by (simp add: stop_unthreaded_def escape_char_def)

section \<open>Parsing captured output: proofs\<close>

lemma length_every_other: "length (every_other xs) = (length xs + 1) div 2"
  by (induction xs rule: every_other.induct) auto

lemma length_records_between: "length (records_between s idx) = length idx - 1"
  by (induction s idx rule: records_between.induct) auto

lemma length_semicolon_positions:
  "length (filter (\<lambda>i. s ! i = c) [0..<length s]) = count_list s c"
proof (induction s rule: rev_induct)
  case Nil
  then show ?case by simp
next
  case (snoc x xs)
  have "filter (\<lambda>i. (xs @ [x]) ! i = c) [0..<length xs]
          = filter (\<lambda>i. xs ! i = c) [0..<length xs]"
    by (rule filter_cong) (auto simp: nth_append)
  then show ?case using snoc.IH by (simp add: nth_append)
qed

text \<open>
  C6. \<open>parse_output\<close> fails on its assertion exactly when the captured text
  holds an odd number of \<open>;\<close> characters; the error is returned at once, with
  nothing appended to the output list. With an even, non-zero count it
  returns, appending one record for every two delimiters.
\<close>

theorem parse_output_delimiter_check:
  "(parse_output input_data output_data = Inl AssertionError
      \<longleftrightarrow> odd (count_list input_data (CHR '';'')))
   \<and> (even (count_list input_data (CHR '';'')) \<and> 0 < count_list input_data (CHR '';'') \<longrightarrow>
        (\<exists>recs. parse_output input_data output_data = Inr (output_data @ recs)
                \<and> length recs = count_list input_data (CHR '';'') div 2))"
proof (intro conjI impI)
  show "parse_output input_data output_data = Inl AssertionError
      \<longleftrightarrow> odd (count_list input_data (CHR '';''))"
    by (auto simp: parse_output_def Let_def odd_iff_mod_2_eq_one)
next
  let ?c = "count_list input_data (CHR '';'')"
  let ?idx = "semicolon_index input_data"
  assume h: "even ?c \<and> 0 < ?c"
  have len: "length ?idx = (?c + 1) div 2"
    by (simp add: semicolon_index_def length_every_other length_semicolon_positions)
  with h have ne: "?idx \<noteq> []" by auto
  have "length (records_between input_data ?idx
                 @ [py_strip (drop (last ?idx) input_data) @ [newline]]) = length ?idx"
    using ne by (simp add: length_records_between)
  moreover have "length ?idx = ?c div 2" using len h by auto
  moreover have "parse_output input_data output_data
        = Inr (output_data @ (records_between input_data ?idx
                 @ [py_strip (drop (last ?idx) input_data) @ [newline]]))"
    using h ne by (simp add: parse_output_def Let_def)
  ultimately show "\<exists>recs. parse_output input_data output_data = Inr (output_data @ recs)
                \<and> length recs = ?c div 2"
    by metis
qed

theorem parse_output_delimiter_check_witness:
  "parse_output '';a;b;'' [] = Inl AssertionError
   \<and> (\<exists>recs. parse_output '';a;b'' [] = Inr ([] @ recs) \<and> length recs = 1)"
proof -
  have c3: "count_list '';a;b;'' (CHR '';'') = 3" by simp
  have c2: "count_list '';a;b'' (CHR '';'') = 2" by simp
  have "parse_output '';a;b;'' [] = Inl AssertionError"
    using parse_output_delimiter_check[of "'';a;b;''" "[]"] c3 by simp
  moreover have "\<exists>recs. parse_output '';a;b'' [] = Inr ([] @ recs) \<and> length recs = 1"
    using parse_output_delimiter_check[of "'';a;b''" "[]"] c2 by simp
  ultimately show ?thesis by blast
qed

section \<open>Duplicate node names: proofs\<close>

lemma count_list_pos: "x \<in> set xs \<Longrightarrow> 0 < count_list xs x"
  by (induction xs) auto

lemma input_node_map_loop_duplicate:
  "\<not> distinct (map name ns) \<or> name ` set ns \<inter> dom m \<noteq> {} \<Longrightarrow>
   \<exists>d. input_node_map_loop ns m = Inl (DuplicateNodeNames d)
       \<and> (d \<in> dom m \<and> d \<in> name ` set ns \<or> 2 \<le> count_list (map name ns) d)"
proof (induction ns arbitrary: m)
  case Nil
  then show ?case by simp
next
  case (Cons n ns)
  show ?case
  proof (cases "m (name n) = None")
    case False
    then have "input_node_map_loop (n # ns) m = Inl (DuplicateNodeNames (name n))"
      by auto
    moreover have "name n \<in> dom m" using False by (simp add: domIff)
    moreover have "name n \<in> name ` set (n # ns)" by simp
    ultimately show ?thesis by blast
  next
    case True
    let ?m = "m(name n \<mapsto> n)"
    have notin: "name n \<notin> dom m" using True by (simp add: domIff)
    have dom': "dom ?m = insert (name n) (dom m)" by simp
    have pre: "\<not> distinct (map name ns) \<or> name ` set ns \<inter> dom ?m \<noteq> {}"
    proof (cases "distinct (map name ns)")
      case False
      then show ?thesis by simp
    next
      case d: True
      show ?thesis
      proof (cases "name n \<in> name ` set ns")
        case True
        then show ?thesis unfolding dom' by blast
      next
        case nn: False
        then have "distinct (map name (n # ns))" using d by simp
        with Cons.prems have "name ` set (n # ns) \<inter> dom m \<noteq> {}" by blast
        then have "name ` set ns \<inter> dom m \<noteq> {}" using notin by auto
        then show ?thesis unfolding dom' by blast
      qed
    qed
    from Cons.IH[OF pre] obtain d where
      d1: "input_node_map_loop ns ?m = Inl (DuplicateNodeNames d)" and
      d2: "d \<in> dom ?m \<and> d \<in> name ` set ns \<or> 2 \<le> count_list (map name ns) d"
      by blast
    have res: "input_node_map_loop (n # ns) m = Inl (DuplicateNodeNames d)"
      using True d1 by simp
    have "d \<in> dom m \<and> d \<in> name ` set (n # ns) \<or> 2 \<le> count_list (map name (n # ns)) d"
    proof (cases "2 \<le> count_list (map name ns) d")
      case True
      then show ?thesis by simp
    next
      case False
      with d2 have dm: "d \<in> insert (name n) (dom m)" and dn: "d \<in> name ` set ns"
        unfolding dom' by blast+
      show ?thesis
      proof (cases "d = name n")
        case True
        have "d \<in> set (map name ns)" using dn by simp
        then have "0 < count_list (map name ns) d" by (rule count_list_pos)
        then show ?thesis using True by simp
      next
        case False
        then have "d \<in> dom m" using dm by blast
        moreover have "d \<in> name ` set (n # ns)" using dn by simp
        ultimately show ?thesis by blast
      qed
    qed
    with res show ?thesis by blast
  qed
qed

text \<open>
  C7. On a graph in which two or more nodes share a name, \<open>do_transform\<close>
  raises the duplicate-names error, carrying a name that occurs at least twice;
  it returns no graph.
\<close>

theorem duplicate_names_rejected:
  fixes g :: "'e graph_def"
  shows "\<not> distinct (map name g) \<Longrightarrow>
   \<exists>d. do_transform R g = Inl (DuplicateNodeNames d) \<and> 2 \<le> count_list (map name g) d"
proof -
  assume "\<not> distinct (map name g)"
  then have "\<not> distinct (map name g) \<or> name ` set g \<inter> dom (Map.empty :: ustring \<rightharpoonup> 'e node_def) \<noteq> {}"
    by simp
  from input_node_map_loop_duplicate[OF this] obtain d where
    "input_node_map_loop g Map.empty = Inl (DuplicateNodeNames d)"
    "2 \<le> count_list (map name g) d"
    by auto
  then show ?thesis
    by (auto simp: do_transform_def build_input_node_map_def)
qed

theorem duplicate_names_rejected_witness:
  "\<exists>d. do_transform example_runtime
          [\<lparr>name = str ''w'', op = str ''Const'', input = [], attr = []\<rparr>,
           \<lparr>name = str ''x'', op = str ''Placeholder'', input = [], attr = []\<rparr>,
           \<lparr>name = str ''w'', op = str ''Relu'', input = [str ''x''], attr = []\<rparr>]
        = Inl (DuplicateNodeNames d)
      \<and> 2 \<le> count_list [str ''w'', str ''x'', str ''w''] d"
  using duplicate_names_rejected
    [where R = example_runtime
       and g = "[\<lparr>name = str ''w'', op = str ''Const'', input = [], attr = []\<rparr>,
                \<lparr>name = str ''x'', op = str ''Placeholder'', input = [], attr = []\<rparr>,
                \<lparr>name = str ''w'', op = str ''Relu'', input = [str ''x''], attr = []\<rparr>]"]
  by simp

section \<open>Name resolution (C9)\<close>

text \<open>
  C9 (as amended). For an input reference without a newline character:
  a reference \<open>b:N\<close>, with \<open>N\<close> a non-empty run of Unicode decimal digits
  (the characters that \<^verbatim>\<open>\d\<close> matches), resolves to \<open>b\<close> without its leading
  control-dependency marker \<open>^\<close> (if it has one); a reference with no such
  slot suffix resolves to itself without that marker, so a reference with
  neither decoration is unchanged. \<open>node_from_map\<close> looks the stripped name
  up and raises, naming the reference, exactly when the stripped name is not a
  key of the map.
\<close>

theorem node_name_resolution:
  "(cp_newline \<notin> set b \<and> ds \<noteq> [] \<and> list_all (is_digit R) ds \<longrightarrow>
      node_name_from_input R (b @ [cp_colon] @ ds) = strip_control_marker b)
   \<and> (cp_newline \<notin> set s \<and> \<not> has_slot_suffix R s \<longrightarrow>
      node_name_from_input R s = strip_control_marker s)
   \<and> (node_from_map R node_map s =
        (case node_map (node_name_from_input R s) of
           None \<Rightarrow> Inl (NoNodeNamed s)
         | Some n \<Rightarrow> Inr n))"
proof (intro conjI impI)
  assume h: "cp_newline \<notin> set b \<and> ds \<noteq> [] \<and> list_all (is_digit R) ds"
  then have "cp_newline \<notin> set (strip_control_marker b)"
    using set_strip_control_marker by blast
  with h have "slot_suffix_search R (strip_control_marker b @ [cp_colon] @ ds)
                 = Some (strip_control_marker b)"
    using slot_suffix_search_decorated by blast
  then show "node_name_from_input R (b @ [cp_colon] @ ds) = strip_control_marker b"
    unfolding node_name_from_input_def node_name1_strip Let_def strip_control_marker_append
    by simp
next
  assume h: "cp_newline \<notin> set s \<and> \<not> has_slot_suffix R s"
  then have "cp_newline \<notin> set (strip_control_marker s)"
    using set_strip_control_marker by blast
  moreover have "\<not> has_slot_suffix R (strip_control_marker s)"
    unfolding has_slot_suffix_strip using h by simp
  ultimately have "slot_suffix_search R (strip_control_marker s) = None"
    using slot_suffix_search_plain by blast
  then show "node_name_from_input R s = strip_control_marker s"
    unfolding node_name_from_input_def node_name1_strip Let_def by simp
next
  show "node_from_map R node_map s =
        (case node_map (node_name_from_input R s) of
           None \<Rightarrow> Inl (NoNodeNamed s)
         | Some n \<Rightarrow> Inr n)"
    by (simp add: node_from_map_def)
qed

text \<open>The theorem at \<^verbatim>\<open>conv1/weights:0\<close>, at \<^verbatim>\<open>^conv1\<close>, and at \<^verbatim>\<open>a:\<close>
  followed by the Arabic-Indic digit one (U+0661).\<close>

theorem node_name_resolution_witness:
  "node_name_from_input example_runtime (str ''conv1/weights:0'') = str ''conv1/weights''
   \<and> node_name_from_input example_runtime (str ''a:'' @ [0x661]) = str ''a''
   \<and> node_name_from_input example_runtime (str ''^conv1'') = str ''conv1''
   \<and> node_from_map example_runtime Map.empty (str ''^conv1'') = Inl (NoNodeNamed (str ''^conv1''))"
proof -
  have h1: "cp_newline \<notin> set (str ''conv1/weights'') \<and> str ''0'' \<noteq> []
            \<and> list_all (is_digit example_runtime) (str ''0'')"
    by (simp add: cp_newline_def is_digit_def str_def)
  have h2: "cp_newline \<notin> set (str ''^conv1'') \<and> \<not> has_slot_suffix example_runtime (str ''^conv1'')"
    by (rule conjI, simp add: cp_newline_def str_def, rule no_colon_no_suffix,
        simp add: cp_colon_def str_def)
  have h3: "cp_newline \<notin> set (str ''a'') \<and> [0x661] \<noteq> []
            \<and> list_all (is_digit example_runtime) [0x661]"
    by (simp add: cp_newline_def is_digit_def str_def example_runtime_def)
  have e1: "str ''conv1/weights'' @ [cp_colon] @ str ''0'' = str ''conv1/weights:0''"
    by (simp add: str_def cp_colon_def)
  have e2: "str ''a'' @ [cp_colon] @ [0x661] = str ''a:'' @ [0x661]"
    by (simp add: str_def cp_colon_def)
  have s1: "strip_control_marker (str ''conv1/weights'') = str ''conv1/weights''"
    by (simp add: strip_control_marker_def str_def cp_caret_def)
  have s2: "strip_control_marker (str ''^conv1'') = str ''conv1''"
    by (simp add: strip_control_marker_def str_def cp_caret_def)
  have s3: "strip_control_marker (str ''a'') = str ''a''"
    by (simp add: strip_control_marker_def str_def cp_caret_def)
  have m: "(Map.empty :: ustring \<rightharpoonup> fp node_def) (str ''conv1'') = None"
    by simp
  from node_name_resolution[of "str ''conv1/weights''" "str ''0''" example_runtime
         "str ''^conv1''" Map.empty] h1 h2
  have a: "node_name_from_input example_runtime (str ''conv1/weights:0'') = str ''conv1/weights''"
    and b: "node_name_from_input example_runtime (str ''^conv1'') = str ''conv1''"
    and c: "node_from_map example_runtime (Map.empty :: ustring \<rightharpoonup> fp node_def) (str ''^conv1'')
              = Inl (NoNodeNamed (str ''^conv1''))"
    unfolding e1 s1 s2 by simp_all
  from node_name_resolution[of "str ''a''" "[0x661]" example_runtime "[]" Map.empty] h3
  have d: "node_name_from_input example_runtime (str ''a:'' @ [0x661]) = str ''a''"
    unfolding e2 s3 by simp
  from a b c d show ?thesis by simp
qed

text \<open>
  C9 as stated fails on a reference that contains a newline: the dot of the
  pattern does not match it, so the leftmost match starts after the newline and
  the part of the name before it is lost. And a digit of the claim is any
  Unicode decimal digit: the reference \<^verbatim>\<open>a:\<close> followed by U+0661, which has no
  suffix of ASCII digits, is not left unchanged.
\<close>

theorem node_name_newline_counterexample:
  "node_name_from_input example_runtime (str ''a'' @ [cp_newline] @ str ''b:1'') = str ''b''
   \<and> str ''b'' \<noteq> strip_control_marker (str ''a'' @ [cp_newline] @ str ''b'')
   \<and> node_name_from_input example_runtime (str ''a:'' @ [0x661]) = str ''a''
   \<and> str ''a'' \<noteq> str ''a:'' @ [0x661]"
  by (simp add: node_name_from_input_def slot_suffix_search_def cp_newline_def cp_colon_def
        cp_caret_def is_digit_def strip_control_marker_def str_def example_runtime_def)

section \<open>Inserting logging ops: proofs\<close>

lemma insert_logging_in_place_ok:
  "store c a = Some g \<Longrightarrow> InsertLogging E ops message g = Inr g' \<Longrightarrow>
   insert_logging_in_place E ops message a c = (c\<lparr>store := (store c)(a := Some g')\<rparr>, None)"
  by (simp add: insert_logging_in_place_def)

text \<open>
  C10. Let \<open>_tmp_graph_def\<close> refer to a graph object of the store (an
  object allocated earlier). When the three \<open>InsertLogging\<close> transformations return,
  \<open>insert_logging\<close> returns; afterwards \<open>_tmp_graph_def\<close> is the same
  reference and the object behind it holds the graph it held before, every
  object that existed before is unchanged, and the instrumented graph is in the
  logged-graph file and nowhere else.
\<close>

theorem insert_logging_restores:
  assumes ref: "tmp_graph_def c = Some a"
    and obj: "store c a = Some g0"
    and alloc: "a < next_object c"
    and t1: "InsertLogging E [''RequantizationRange'', ''RequantizationRangePerChannel'']
               ''__requant_min_max:'' g0 = Inr g1"
    and t2: "InsertLogging E [''Min''] ''__min:'' g1 = Inr g2"
    and t3: "InsertLogging E [''Max''] ''__max:'' g2 = Inr g3"
  shows "\<exists>c'. insert_logging E c = (c', None)
            \<and> tmp_graph_def c' = tmp_graph_def c
            \<and> tmp_graph c' = Some g0
            \<and> (\<forall>b. b < next_object c \<longrightarrow> store c' b = store c b)
            \<and> files c' = (files c)(int8_logged_graph c := Some g3)"
proof -
  let ?k = "next_object c"
  let ?c1 = "c\<lparr>store := (store c)(?k := Some g0), next_object := Suc ?k\<rparr>"
  let ?c2 = "?c1\<lparr>store := (store ?c1)(a := Some g1)\<rparr>"
  let ?c3 = "?c2\<lparr>store := (store ?c2)(a := Some g2)\<rparr>"
  let ?c4 = "?c3\<lparr>store := (store ?c3)(a := Some g3)\<rparr>"
  let ?c5 = "?c4\<lparr>files := (files ?c4)(int8_logged_graph c := Some g3)\<rparr>"
  let ?c6 = "?c5\<lparr>store := (store ?c5)(a := store ?c5 ?k)\<rparr>"
  have ne: "a \<noteq> ?k" using alloc by simp
  have s1: "insert_logging_in_place E [''RequantizationRange'', ''RequantizationRangePerChannel'']
              ''__requant_min_max:'' a ?c1 = (?c2, None)"
    by (rule insert_logging_in_place_ok[OF _ t1]) (use obj ne in simp)
  have s2: "insert_logging_in_place E [''Min''] ''__min:'' a ?c2 = (?c3, None)"
    by (rule insert_logging_in_place_ok[OF _ t2]) simp
  have s3: "insert_logging_in_place E [''Max''] ''__max:'' a ?c3 = (?c4, None)"
    by (rule insert_logging_in_place_ok[OF _ t3]) simp
  have s4: "write_graph a (int8_logged_graph c) ?c4 = (?c5, None)"
    by (simp add: write_graph_def)
  have run: "insert_logging E c = (?c6, None)"
    unfolding insert_logging_def Let_def
    using ref obj s1 s2 s3 s4 by (simp add: and_then_def)
  have "tmp_graph ?c6 = Some g0" using ref ne by (simp add: tmp_graph_def)
  moreover have "\<forall>b. b < ?k \<longrightarrow> store ?c6 b = store c b" using obj ne by auto
  moreover have "files ?c6 = (files c)(int8_logged_graph c := Some g3)" by simp
  moreover have "tmp_graph_def ?c6 = tmp_graph_def c" by simp
  ultimately show ?thesis using run by blast
qed

theorem insert_logging_restores_witness:
  "\<exists>c'. insert_logging failing_calibration example_converter = (c', None)
      \<and> tmp_graph_def c' = Some 0
      \<and> tmp_graph c' = Some [\<lparr>name = str ''x'', op = str ''Placeholder'', input = [], attr = []\<rparr>]
      \<and> (\<forall>b. b < 1 \<longrightarrow> store c' b = store example_converter b)
      \<and> files c' = (\<lambda>p. None)(''int8_logged_graph.pb'' :=
           Some [\<lparr>name = str ''x'', op = str ''Placeholder'', input = [], attr = []\<rparr>,
                 print_node ''__requant_min_max:'', print_node ''__min:'', print_node ''__max:''])"
  using insert_logging_restores[of example_converter 0
      "[\<lparr>name = str ''x'', op = str ''Placeholder'', input = [], attr = []\<rparr>]" failing_calibration
      "[\<lparr>name = str ''x'', op = str ''Placeholder'', input = [], attr = []\<rparr>, print_node ''__requant_min_max:'']"
      "[\<lparr>name = str ''x'', op = str ''Placeholder'', input = [], attr = []\<rparr>, print_node ''__requant_min_max:'',
        print_node ''__min:'']"
      "[\<lparr>name = str ''x'', op = str ''Placeholder'', input = [], attr = []\<rparr>, print_node ''__requant_min_max:'',
        print_node ''__min:'', print_node ''__max:'']"]
  by (simp add: example_converter_def failing_calibration_def)

section \<open>The folded graph (C4)\<close>



section \<open>Candidates that fail validation (C5)\<close>




section \<open>Graphs without a valid pattern (C8)\<close>

text \<open>
  C8 (as amended). On a graph with distinct names in which no batch-norm node
  has a valid convolution pattern, \<open>do_transform\<close>, whenever it returns,
  returns a graph with the same nodes in the same order (ops, inputs and
  attributes included) and has logged one warning for each batch-norm node; and
  it does return when every batch-norm node fails a validation check, that is,
  when no lookup on the way to the failing check raises.
\<close>

theorem no_pattern_no_change:
  assumes d: "distinct (map name g)"
    and nv: "\<forall>n \<in> set g. is_batch_norm n \<longrightarrow> \<not> valid_pattern R (node_map_of g) n"
  shows "(\<forall>out ws. do_transform R g = Inr (out, ws) \<longrightarrow>
            out = g \<and> length ws = length (filter is_batch_norm g))
      \<and> ((\<forall>n \<in> set g. is_batch_norm n \<longrightarrow> validation_failure R (node_map_of g) n) \<longrightarrow>
            (\<exists>ws. do_transform R g = Inr (g, ws)))"
proof -
  have same: "out = g \<and> length ws = length (filter is_batch_norm g)"
    if t: "do_transform R g = Inr (out, ws)" for out ws
  proof -
    from do_transform_Inr[OF d t] obtain st' where
    st': "scan_nodes R (node_map_of g) g initial_scan = Inr st'" "out = result_graph g st'"
      "ws = warnings st'"
    by blast
  from scan_nodes_no_match[OF st'(1) nv] obtain ws' where
    ws': "st' = initial_scan\<lparr>warnings := warnings initial_scan @ ws'\<rparr>"
      "length ws' = length (filter is_batch_norm g)"
    by blast
    show ?thesis
      using st'(2,3) ws' by (simp add: result_graph_def initial_scan_def)
  qed
  let ?nm = "node_map_of g"
  have returns: "\<exists>ws. do_transform R g = Inr (g, ws)"
    if vf: "\<forall>n \<in> set g. is_batch_norm n \<longrightarrow> validation_failure R ?nm n"
  proof -
    have "\<forall>n \<in> set g. is_batch_norm n \<longrightarrow> (\<exists>w. match_node R ?nm n = Continue w)"
      using vf validation_failure_Continue by blast
    from scan_nodes_all_skipped[OF this, of initial_scan] obtain ws where
    ws: "scan_nodes R ?nm g initial_scan = Inr (initial_scan\<lparr>warnings := warnings initial_scan @ ws\<rparr>)"
    by blast
  have "result_graph g (initial_scan\<lparr>warnings := warnings initial_scan @ ws\<rparr>) = g"
    by (simp add: result_graph_def initial_scan_def)
  then have "do_transform R g = Inr (g, ws)"
    using ws d
    by (simp add: do_transform_def build_input_node_map_distinct initial_scan_def)
    then show ?thesis by blast
  qed
  from same returns show ?thesis by blast
qed

theorem no_pattern_no_change_witness:
  "\<exists>ws. do_transform example_runtime example_graph_bad_mean = Inr (example_graph_bad_mean, ws)
      \<and> length ws = 1"
proof -
  have vf: "\<forall>n \<in> set example_graph_bad_mean. is_batch_norm n \<longrightarrow>
               validation_failure example_runtime (node_map_of example_graph_bad_mean) n"
    using example_bad_mean_only_bn example_bad_mean_failure by blast
  have nv: "\<forall>n \<in> set example_graph_bad_mean. is_batch_norm n \<longrightarrow>
               \<not> valid_pattern example_runtime (node_map_of example_graph_bad_mean) n"
    using example_bad_mean_only_bn example_bad_mean_invalid by blast
  have one: "length (filter is_batch_norm example_graph_bad_mean) = 1"
    by (simp add: example_defs is_batch_norm_def)
  from no_pattern_no_change[OF example_bad_mean_distinct nv] vf one show ?thesis
    by metis
qed

text \<open>
  C8 as stated fails on a graph whose batch-norm node refers to a node that is
  not in the graph: the names are distinct and there is no valid pattern, but
  \<open>node_from_map\<close> raises and no graph is returned.
\<close>

theorem no_pattern_dangling_counterexample:
  "distinct (map name example_graph_dangling)
   \<and> list_all (\<lambda>n. \<not> valid_pattern example_runtime (node_map_of example_graph_dangling) n)
         example_graph_dangling
   \<and> do_transform example_runtime example_graph_dangling = Inl (NoNodeNamed (str ''conv''))"
proof -
  have "\<not> valid_pattern example_runtime (node_map_of example_graph_dangling)
           (hd example_graph_dangling)"
    using example_dangling_match[of example_runtime]
      match_node_valid_pattern[of example_runtime "node_map_of example_graph_dangling"
        "hd example_graph_dangling"]
    by auto
  moreover have "example_graph_dangling = [hd example_graph_dangling]"
    by (simp add: example_graph_dangling_def)
  ultimately have
    "list_all (\<lambda>n. \<not> valid_pattern example_runtime (node_map_of example_graph_dangling) n)
       example_graph_dangling"
    by (metis list.pred_inject(2) list.pred_inject(1))
  moreover have "distinct (map name example_graph_dangling)"
    by (simp add: example_graph_dangling_def)
  ultimately show ?thesis using example_dangling_run[of example_runtime] by simp
qed

end
